theory Spec2Isabelle
  imports Main "HOL-Library.Multiset"
begin

section \<open>The tournament bot: data model\<close>

text \<open>
  The repository holds four revisions of one file, \<^verbatim>\<open>index.js\<close>: \<^verbatim>\<open>src/index.js\<close>,
  \<^verbatim>\<open>src/unnamed/part_000\<close> (whose tournament logic is, comments apart, that of
  \<^verbatim>\<open>src/index.js\<close>), and the two revisions inside \<^verbatim>\<open>src/unnamed/part_001\<close>.
  Constants without a suffix embed \<^verbatim>\<open>src/index.js\<close>; the suffix \<open>_v1\<close> marks the first
  revision of \<^verbatim>\<open>part_001\<close> (lines 1 to 710) and \<open>_v2\<close> the second one (lines 711 to 1746).

  A participant is the object \<^verbatim>\<open>{ id, username }\<close>; a bracket entry is
  \<^verbatim>\<open>{ matchId, p1, p2, winner }\<close> where \<^verbatim>\<open>winner\<close> is a string or \<^verbatim>\<open>null\<close>.
\<close>

record player =
  id_p :: string
  username :: string

record match =
  matchId :: nat
  p1 :: string
  p2 :: string
  winner :: "string option"

record details =
  name :: string
  prize :: string
  entryFee :: string
  organizer :: string

text \<open>The module-level object \<^verbatim>\<open>tournamentState\<close>; \<^verbatim>\<open>null\<close> and \<^verbatim>\<open>{}\<close> are \<open>None\<close>.\<close>

record tournamentState =
  isActive :: bool
  channelId :: "string option"
  messageId :: "string option"
  participants :: "player list"
  details :: "details option"
  bracket :: "match list"

definition initialState :: tournamentState where
  "initialState = \<lparr>isActive = False, channelId = None, messageId = None,
     participants = [], details = None, bracket = []\<rparr>"

text \<open>JavaScript's \<^verbatim>\<open>!x\<close> on a value that is a string or \<^verbatim>\<open>null\<close>: true on \<^verbatim>\<open>null\<close> and
  on the empty string.\<close>

definition falsy :: "string option \<Rightarrow> bool" where
  "falsy x = (case x of None \<Rightarrow> True | Some s \<Rightarrow> s = [])"

section \<open>The pairing generator\<close>

text \<open>
  \<^verbatim>\<open>let nextPowerOfTwo = 1; while (nextPowerOfTwo < n) nextPowerOfTwo *= 2;\<close>
  The loop is kept as it is written; that it returns from the start value 1 is proved
  below (\<open>nextPowerOfTwo_returns\<close>).
\<close>

partial_function (option) nextPowerOfTwo_loop :: "nat \<Rightarrow> nat \<Rightarrow> nat option" where
  "nextPowerOfTwo_loop p n = (if p < n then nextPowerOfTwo_loop (p * 2) n else Some p)"

declare nextPowerOfTwo_loop.simps [code]

definition nextPowerOfTwo :: "nat \<Rightarrow> nat option" where
  "nextPowerOfTwo n = nextPowerOfTwo_loop 1 n"

definition BYE :: player where
  "BYE = \<lparr>id_p = ''BYE'', username = ''BYE''\<rparr>"

text \<open>
  The pairing loop \<^verbatim>\<open>for (let i = 0; i < shuffledPlayers.length / 2; i++)\<close>. The division
  is JavaScript's division of numbers, so the test is \<open>2 * i < length\<close> (one iteration on
  a list of length 1). Both reads are in range while the test holds.
\<close>

function pairings_loop :: "nat \<Rightarrow> player list \<Rightarrow> match list \<Rightarrow> match list" where
  "pairings_loop i shuffledPlayers pairings =
     (if 2 * i < length shuffledPlayers
      then pairings_loop (i + 1) shuffledPlayers
             (pairings @ [\<lparr>matchId = i + 1,
                           p1 = username (shuffledPlayers ! i),
                           p2 = username (shuffledPlayers ! (length shuffledPlayers - 1 - i)),
                           winner = None\<rparr>])
      else pairings)"
  by pat_completeness auto
termination
  by (relation "measure (\<lambda>(i, sp, acc). length sp - i)") auto

declare pairings_loop.simps [simp del]

text \<open>
  \<^verbatim>\<open>generatePairings\<close> of \<^verbatim>\<open>src/index.js\<close> (lines 61 to 84; \<^verbatim>\<open>part_000\<close> lines 55 to 80).
  The first argument stands for \<^verbatim>\<open>[...players].sort(() => 0.5 - Math.random())\<close>: the
  result of the random sort is whatever \<open>shuffle\<close> returns, and theorems that need it
  assume only that it is a permutation of its argument. \<open>None\<close> means that the
  \<^verbatim>\<open>while\<close> loop does not return.
\<close>

definition generatePairings :: "(player list \<Rightarrow> player list) \<Rightarrow> player list \<Rightarrow> match list option" where
  "generatePairings shuffle players =
     (let shuffledPlayers = shuffle players in
      case nextPowerOfTwo (length shuffledPlayers) of
        None \<Rightarrow> None
      | Some npt \<Rightarrow>
          let padding = npt - length shuffledPlayers;
              padded = shuffledPlayers @ replicate padding BYE
          in Some (pairings_loop 0 padded []))"

text \<open>
  The second revision of \<^verbatim>\<open>part_001\<close> (lines 778 to 808) adds the guard
  \<^verbatim>\<open>if (!players || players.length < 2) return [];\<close> and is otherwise the same.
\<close>

definition generatePairings_v2 :: "(player list \<Rightarrow> player list) \<Rightarrow> player list \<Rightarrow> match list option" where
  "generatePairings_v2 shuffle players =
     (if length players < 2 then Some []
      else generatePairings shuffle players)"

text \<open>
  The first revision of \<^verbatim>\<open>part_001\<close> (lines 78 to 115) has the guard too, and resolves
  a match against \<^verbatim>\<open>BYE\<close> when it creates it.
\<close>

function pairings_loop_v1 :: "nat \<Rightarrow> player list \<Rightarrow> match list \<Rightarrow> match list" where
  "pairings_loop_v1 i shuffledPlayers pairings =
     (if 2 * i < length shuffledPlayers
      then (let a = shuffledPlayers ! i;
                b = shuffledPlayers ! (length shuffledPlayers - 1 - i);
                w = (if username a = ''BYE'' then Some (username b)
                     else if username b = ''BYE'' then Some (username a)
                     else None)
            in pairings_loop_v1 (i + 1) shuffledPlayers
                 (pairings @ [\<lparr>matchId = i + 1, p1 = username a, p2 = username b, winner = w\<rparr>]))
      else pairings)"
  by pat_completeness auto
termination
  by (relation "measure (\<lambda>(i, sp, acc). length sp - i)") auto

declare pairings_loop_v1.simps [simp del]

definition generatePairings_v1 :: "(player list \<Rightarrow> player list) \<Rightarrow> player list \<Rightarrow> match list option" where
  "generatePairings_v1 shuffle players =
     (if length players < 2 then Some []
      else
        let shuffledPlayers = shuffle players in
        case nextPowerOfTwo (length shuffledPlayers) of
          None \<Rightarrow> None
        | Some npt \<Rightarrow>
            let padding = npt - length shuffledPlayers;
                padded = shuffledPlayers @ replicate padding BYE
            in Some (pairings_loop_v1 0 padded []))"

section \<open>Events, replies and the handlers of \<^verbatim>\<open>src/index.js\<close>\<close>

text \<open>
  What a handler sends back: the texts of \<^verbatim>\<open>interaction.reply\<close> and
  \<^verbatim>\<open>interaction.followUp\<close>, and the line of \<^verbatim>\<open>console.log\<close> on a join, one
  constructor for each text of the source.
\<close>

datatype reply =
    NoActiveTournament
  | NoActiveMatch string
  | AdvancedBye string
  | Advanced string
  | AdvancedAgainst string string
  | TournamentWon string
  | RoundComplete nat
  | AdminRequired
  | NotStarted
  | AdminOrNotStarted
  | NoTournamentToEnd
  | Ended
  | LoggedJoined string

text \<open>
  A reaction event: \<^verbatim>\<open>user.bot\<close>, \<^verbatim>\<open>reaction.message.id\<close>, \<^verbatim>\<open>reaction.emoji.name\<close> and the
  user as \<^verbatim>\<open>client.users.fetch(user.id)\<close> returns it. A slash-command interaction:
  \<^verbatim>\<open>isChatInputCommand()\<close>, \<^verbatim>\<open>commandName\<close>, whether the member has the Administrator
  permission (read by the revisions of \<^verbatim>\<open>part_001\<close> only) and the user option
  \<^verbatim>\<open>winner\<close>, which the command declares as required.
\<close>

record reaction =
  user_bot :: bool
  message_id :: string
  emoji_name :: string
  user :: player

record interaction =
  isChatInputCommand :: bool
  commandName :: string
  isAdmin :: bool
  winner_user :: player

text \<open>The check mark, U+2705, in UTF-8.\<close>

definition tick :: string where
  "tick = [CHR 0xE2, CHR 0x9C, CHR 0x85]"

text \<open>
  The first revision of \<^verbatim>\<open>part_001\<close> (line 600) compares the name of the emoji with another
  literal: the file stores the three characters U+201A, U+00FA, U+00D6 there, in UTF-8
  the bytes \<^verbatim>\<open>e2 80 9a c3 ba c3 96\<close>.
\<close>

definition tick_v1 :: string where
  "tick_v1 = [CHR 0xE2, CHR 0x80, CHR 0x9A, CHR 0xC3, CHR 0xBA, CHR 0xC3, CHR 0x96]"

text \<open>
  \<^verbatim>\<open>updateTournamentPost\<close> (\<^verbatim>\<open>src/index.js\<close> lines 165 to 204). Drawing and editing the
  message do not touch \<^verbatim>\<open>tournamentState\<close>; \<open>fetched\<close> tells whether the two
  \<^verbatim>\<open>fetch\<close> calls before the bracket is generated succeed (when one throws, the
  \<^verbatim>\<open>catch\<close> block logs and the function returns).
\<close>

definition updateTournamentPost ::
  "(player list \<Rightarrow> player list) \<Rightarrow> bool \<Rightarrow> tournamentState \<Rightarrow> tournamentState option" where
  "updateTournamentPost shuffle fetched st =
     (if falsy (messageId st) \<or> falsy (channelId st) then Some st
      else if \<not> fetched then Some st
      else if bracket st = [] \<and> 1 < length (participants st)
      then (case generatePairings shuffle (participants st) of
              None \<Rightarrow> None
            | Some b \<Rightarrow> Some (st\<lparr>bracket := b\<rparr>))
      else Some st)"

text \<open>The handler of \<^verbatim>\<open>messageReactionAdd\<close> (\<^verbatim>\<open>src/index.js\<close> lines 846 to 861).\<close>

definition messageReactionAdd ::
  "(player list \<Rightarrow> player list) \<Rightarrow> bool \<Rightarrow> reaction \<Rightarrow> tournamentState
     \<Rightarrow> (reply list \<times> tournamentState) option" where
  "messageReactionAdd shuffle fetched r st =
     (if user_bot r \<or> Some (message_id r) \<noteq> messageId st \<or> emoji_name r \<noteq> tick
      then Some ([], st)
      else if \<not> isActive st then Some ([], st)
      else if \<not> list_ex (\<lambda>p. id_p p = id_p (user r)) (participants st)
      then map_option (Pair [LoggedJoined (username (user r))])
             (updateTournamentPost shuffle fetched
                (st\<lparr>participants := participants st @ [user r]\<rparr>))
      else Some ([], st))"

text \<open>
  The search loop of the \<^verbatim>\<open>updatewinner\<close> command (\<^verbatim>\<open>src/index.js\<close> lines 879 to 893):
  the first entry, in the order of the array, whose \<^verbatim>\<open>winner\<close> is falsy and which holds
  the name gets the name as its winner, and the loop breaks. The second component is
  the reply sent there, \<open>None\<close> when \<^verbatim>\<open>matchFound\<close> stays false. The loop's test is
  \<^verbatim>\<open>!match.winner && (match.p1 === winnerUsername || match.p2 === winnerUsername)\<close>.
\<close>

definition isOpenMatchOf :: "string \<Rightarrow> match \<Rightarrow> bool" where
  "isOpenMatchOf winnerUsername m =
     (falsy (winner m) \<and> (p1 m = winnerUsername \<or> p2 m = winnerUsername))"

fun findMatch :: "string \<Rightarrow> match list \<Rightarrow> match list \<times> reply option" where
  "findMatch winnerUsername [] = ([], None)"
| "findMatch winnerUsername (m # ms) =
     (if isOpenMatchOf winnerUsername m
      then (m\<lparr>winner := Some winnerUsername\<rparr> # ms,
            Some (if p1 m = ''BYE'' \<or> p2 m = ''BYE''
                  then AdvancedBye winnerUsername else Advanced winnerUsername))
      else (case findMatch winnerUsername ms of (ms', rep) \<Rightarrow> (m # ms', rep)))"

text \<open>\<^verbatim>\<open>bracket.every(m => m.winner !== null)\<close>\<close>

definition allComplete :: "match list \<Rightarrow> bool" where
  "allComplete b = list_all (\<lambda>m. winner m \<noteq> None) b"

text \<open>
  \<^verbatim>\<open>bracket.map(m => participants.find(p => p.username === m.winner))
         .filter(p => p !== undefined)\<close>
\<close>

definition winnersOf :: "player list \<Rightarrow> match list \<Rightarrow> player list" where
  "winnersOf ps b = List.map_filter (\<lambda>m. find (\<lambda>p. Some (username p) = winner m) ps) b"

text \<open>
  The advancement block (\<^verbatim>\<open>src/index.js\<close> lines 900 to 911), run once a match has been
  resolved; it returns the follow-up messages and the state.
\<close>

definition advance ::
  "(player list \<Rightarrow> player list) \<Rightarrow> tournamentState \<Rightarrow> (reply list \<times> tournamentState) option" where
  "advance shuffle st =
     (if allComplete (bracket st) \<and> 1 < length (bracket st)
      then (let winners = winnersOf (participants st) (bracket st) in
            case generatePairings shuffle winners of
              None \<Rightarrow> None
            | Some nb \<Rightarrow>
                if length nb = 1
                then Some ([TournamentWon (p1 (nb ! 0))], st\<lparr>bracket := nb, isActive := False\<rparr>)
                else Some ([], st\<lparr>bracket := nb\<rparr>))
      else Some ([], st))"

text \<open>The handler of \<^verbatim>\<open>interactionCreate\<close> (\<^verbatim>\<open>src/index.js\<close> lines 864 to 915).\<close>

definition interactionCreate ::
  "(player list \<Rightarrow> player list) \<Rightarrow> bool \<Rightarrow> interaction \<Rightarrow> tournamentState
     \<Rightarrow> (reply list \<times> tournamentState) option" where
  "interactionCreate shuffle fetched i st =
     (if \<not> isChatInputCommand i then Some ([], st)
      else if commandName i \<noteq> ''updatewinner'' then Some ([], st)
      else if \<not> isActive st then Some ([NoActiveTournament], st)
      else
        (let winnerUsername = username (winner_user i) in
         case findMatch winnerUsername (bracket st) of
           (b, None) \<Rightarrow> Some ([NoActiveMatch winnerUsername], st)
         | (b, Some rep) \<Rightarrow>
             (case advance shuffle (st\<lparr>bracket := b\<rparr>) of
                None \<Rightarrow> None
              | Some (followUps, st2) \<Rightarrow>
                  map_option (Pair (rep # followUps))
                    (updateTournamentPost shuffle fetched st2))))"

text \<open>
  The route \<^verbatim>\<open>POST /start-tournament\<close> (\<^verbatim>\<open>src/index.js\<close> lines 729 to 825), as far as it
  writes \<^verbatim>\<open>tournamentState\<close>. \<open>channel_ok\<close> tells whether the channel is fetched and
  passes the check; \<open>sent\<close> is the id of the posted message, \<open>None\<close> when posting or
  reacting throws (the state written before stays).
\<close>

record startRequest =
  req_name :: string
  req_prize :: string
  req_guildId :: string
  req_channelId :: string
  req_entryFee :: string

definition startTournament ::
  "startRequest \<Rightarrow> bool \<Rightarrow> string option \<Rightarrow> tournamentState \<Rightarrow> tournamentState" where
  "startTournament req channel_ok sent st =
     (if isActive st then st
      else if req_name req = [] \<or> req_prize req = [] \<or> req_guildId req = []
              \<or> req_channelId req = [] then st
      else if \<not> channel_ok then st
      else
        (let st1 = st\<lparr>isActive := True, channelId := Some (req_channelId req),
                      details := Some \<lparr>name = req_name req, prize = req_prize req,
                        entryFee = (if req_entryFee req = [] then ''None'' else req_entryFee req),
                        organizer = ''Web App''\<rparr>,
                      participants := [], bracket := []\<rparr>
         in case sent of None \<Rightarrow> st1 | Some mid \<Rightarrow> st1\<lparr>messageId := Some mid\<rparr>))"

section \<open>The second revision of \<^verbatim>\<open>part_001\<close>\<close>

text \<open>
  \<^verbatim>\<open>updateTournamentPost\<close> (\<^verbatim>\<open>part_001\<close> lines 895 to 935): the bracket is generated only
  while the tournament is active; \<open>fetched\<close> is false also when the channel is not
  found.
\<close>

definition updateTournamentPost_v2 ::
  "(player list \<Rightarrow> player list) \<Rightarrow> bool \<Rightarrow> tournamentState \<Rightarrow> tournamentState option" where
  "updateTournamentPost_v2 shuffle fetched st =
     (if falsy (messageId st) \<or> falsy (channelId st) then Some st
      else if \<not> fetched then Some st
      else if bracket st = [] \<and> 1 < length (participants st) \<and> isActive st
      then (case generatePairings_v2 shuffle (participants st) of
              None \<Rightarrow> None
            | Some b \<Rightarrow> Some (st\<lparr>bracket := b\<rparr>))
      else Some st)"

text \<open>The handler of \<^verbatim>\<open>messageReactionAdd\<close> (\<^verbatim>\<open>part_001\<close> lines 1621 to 1640).\<close>

definition messageReactionAdd_v2 ::
  "(player list \<Rightarrow> player list) \<Rightarrow> bool \<Rightarrow> reaction \<Rightarrow> tournamentState
     \<Rightarrow> (reply list \<times> tournamentState) option" where
  "messageReactionAdd_v2 shuffle fetched r st =
     (if user_bot r \<or> Some (message_id r) \<noteq> messageId st \<or> emoji_name r \<noteq> tick
      then Some ([], st)
      else if \<not> isActive st then Some ([], st)
      else if \<not> list_ex (\<lambda>p. id_p p = id_p (user r)) (participants st)
      then map_option (Pair [LoggedJoined (username (user r))])
             (updateTournamentPost_v2 shuffle fetched
                (st\<lparr>participants := participants st @ [user r]\<rparr>))
      else Some ([], st))"

text \<open>
  The round-completion block (\<^verbatim>\<open>part_001\<close> lines 1718 to 1738): a single winner found in
  the roster ends the tournament and leaves the display entry
  \<^verbatim>\<open>{ matchId: 1, p1: finalWinner, p2: 'CHAMPION', winner: finalWinner }\<close>.
\<close>

definition advance_v2 ::
  "(player list \<Rightarrow> player list) \<Rightarrow> tournamentState \<Rightarrow> (reply list \<times> tournamentState) option" where
  "advance_v2 shuffle st =
     (if allComplete (bracket st)
      then (let roundWinners = winnersOf (participants st) (bracket st) in
            if length roundWinners = 1
            then (let finalWinner = username (roundWinners ! 0) in
                  Some ([TournamentWon finalWinner],
                        st\<lparr>bracket := [\<lparr>matchId = 1, p1 = finalWinner, p2 = ''CHAMPION'',
                                          winner = Some finalWinner\<rparr>],
                           isActive := False\<rparr>))
            else if 1 < length roundWinners
            then (case generatePairings_v2 shuffle roundWinners of
                    None \<Rightarrow> None
                  | Some nb \<Rightarrow> Some ([RoundComplete (length nb)], st\<lparr>bracket := nb\<rparr>))
            else Some ([], st))
      else Some ([], st))"

text \<open>The reset of \<^verbatim>\<open>endtournament\<close> (\<^verbatim>\<open>part_001\<close> lines 1662 to 1667 and 638 to 643).\<close>

definition resetState :: "tournamentState \<Rightarrow> tournamentState" where
  "resetState st = st\<lparr>isActive := False, channelId := None, messageId := None,
     participants := [], details := None, bracket := []\<rparr>"

text \<open>The handler of \<^verbatim>\<open>interactionCreate\<close> (\<^verbatim>\<open>part_001\<close> lines 1643 to 1742).\<close>

definition interactionCreate_v2 ::
  "(player list \<Rightarrow> player list) \<Rightarrow> bool \<Rightarrow> interaction \<Rightarrow> tournamentState
     \<Rightarrow> (reply list \<times> tournamentState) option" where
  "interactionCreate_v2 shuffle fetched i st =
     (if \<not> isChatInputCommand i then Some ([], st)
      else if commandName i = ''endtournament'' then
        (if \<not> isAdmin i then Some ([AdminRequired], st)
         else if \<not> isActive st then Some ([NoTournamentToEnd], st)
         else map_option (Pair [Ended]) (updateTournamentPost_v2 shuffle fetched (resetState st)))
      else if commandName i = ''updatewinner'' then
        (if \<not> isAdmin i then Some ([AdminRequired], st)
         else if \<not> isActive st then Some ([NoActiveTournament], st)
         else if length (participants st) < 2 \<or> bracket st = [] then Some ([NotStarted], st)
         else
           (let winnerUsername = username (winner_user i) in
            case findMatch winnerUsername (bracket st) of
              (b, None) \<Rightarrow> Some ([NoActiveMatch winnerUsername], st)
            | (b, Some rep) \<Rightarrow>
                (case advance_v2 shuffle (st\<lparr>bracket := b\<rparr>) of
                   None \<Rightarrow> None
                 | Some (followUps, st2) \<Rightarrow>
                     map_option (Pair (rep # followUps))
                       (updateTournamentPost_v2 shuffle fetched st2))))
      else Some ([], st))"

section \<open>The first revision of \<^verbatim>\<open>part_001\<close>\<close>

text \<open>\<^verbatim>\<open>updateTournamentPost\<close> (\<^verbatim>\<open>part_001\<close> lines 209 to 265).\<close>

definition updateTournamentPost_v1 ::
  "(player list \<Rightarrow> player list) \<Rightarrow> bool \<Rightarrow> tournamentState \<Rightarrow> tournamentState option" where
  "updateTournamentPost_v1 shuffle fetched st =
     (if falsy (messageId st) \<or> falsy (channelId st) then Some st
      else if \<not> fetched then Some st
      else if bracket st = [] \<and> 1 < length (participants st) \<and> isActive st
      then (case generatePairings_v1 shuffle (participants st) of
              None \<Rightarrow> None
            | Some b \<Rightarrow> Some (st\<lparr>bracket := b\<rparr>))
      else Some st)"

text \<open>
  The handler of \<^verbatim>\<open>messageReactionAdd\<close> (\<^verbatim>\<open>part_001\<close> lines 599 to 617): it generates the
  bracket itself once two participants are there and no bracket exists. Its guard reads
  \<^verbatim>\<open>reaction.emoji.name !== '...'\<close> with the literal \<open>tick_v1\<close>.
\<close>

definition messageReactionAdd_v1 ::
  "(player list \<Rightarrow> player list) \<Rightarrow> bool \<Rightarrow> reaction \<Rightarrow> tournamentState
     \<Rightarrow> (reply list \<times> tournamentState) option" where
  "messageReactionAdd_v1 shuffle fetched r st =
     (if user_bot r \<or> Some (message_id r) \<noteq> messageId st \<or> emoji_name r \<noteq> tick_v1
         \<or> \<not> isActive st
      then Some ([], st)
      else if \<not> list_ex (\<lambda>p. id_p p = id_p (user r)) (participants st)
      then (let st1 = st\<lparr>participants := participants st @ [user r]\<rparr> in
            if 2 \<le> length (participants st1) \<and> bracket st1 = []
            then (case generatePairings_v1 shuffle (participants st1) of
                    None \<Rightarrow> None
                  | Some b \<Rightarrow>
                      map_option (Pair [LoggedJoined (username (user r))])
                        (updateTournamentPost_v1 shuffle fetched (st1\<lparr>bracket := b\<rparr>)))
            else map_option (Pair [LoggedJoined (username (user r))])
                   (updateTournamentPost_v1 shuffle fetched st1))
      else Some ([], st))"

text \<open>The search loop (\<^verbatim>\<open>part_001\<close> lines 661 to 671); the reply names the opponent.\<close>

fun findMatch_v1 :: "string \<Rightarrow> match list \<Rightarrow> match list \<times> reply option" where
  "findMatch_v1 winnerUsername [] = ([], None)"
| "findMatch_v1 winnerUsername (m # ms) =
     (if isOpenMatchOf winnerUsername m
      then (m\<lparr>winner := Some winnerUsername\<rparr> # ms,
            Some (AdvancedAgainst winnerUsername
                    (if p1 m = winnerUsername then p2 m else p1 m)))
      else (case findMatch_v1 winnerUsername ms of (ms', rep) \<Rightarrow> (m # ms', rep)))"

text \<open>
  The round-completion block (\<^verbatim>\<open>part_001\<close> lines 678 to 702). It runs only when every
  \<^verbatim>\<open>winner\<close> is a string, so \<^verbatim>\<open>bracket.map(m => m.winner)\<close> is the list of these strings.
  The id of a player of the next round is
  \<^verbatim>\<open>participants.find(p => p.username === username)?.id || 'UNKNOWN'\<close>.
\<close>

definition advance_v1 ::
  "(player list \<Rightarrow> player list) \<Rightarrow> tournamentState \<Rightarrow> (reply list \<times> tournamentState) option" where
  "advance_v1 shuffle st =
     (if allComplete (bracket st)
      then (let roundWinners = filter (\<lambda>w. w \<noteq> ''BYE'') (List.map_filter winner (bracket st)) in
            if length roundWinners = 1
            then (let finalWinner = roundWinners ! 0 in
                  Some ([TournamentWon finalWinner],
                        st\<lparr>isActive := False,
                           bracket := [\<lparr>matchId = 1, p1 = finalWinner, p2 = ''CHAMPION'',
                                          winner = Some finalWinner\<rparr>]\<rparr>))
            else if 1 < length roundWinners
            then (let nextRoundPlayers =
                        map (\<lambda>u. \<lparr>id_p = (case find (\<lambda>p. username p = u) (participants st) of
                                             Some p \<Rightarrow> (if id_p p = [] then ''UNKNOWN'' else id_p p)
                                           | None \<Rightarrow> ''UNKNOWN''),
                                   username = u\<rparr>) roundWinners in
                  case generatePairings_v1 shuffle nextRoundPlayers of
                    None \<Rightarrow> None
                  | Some nb \<Rightarrow> Some ([RoundComplete (length nb)], st\<lparr>bracket := nb\<rparr>))
            else Some ([], st))
      else Some ([], st))"

text \<open>The handler of \<^verbatim>\<open>interactionCreate\<close> (\<^verbatim>\<open>part_001\<close> lines 620 to 706).\<close>

definition interactionCreate_v1 ::
  "(player list \<Rightarrow> player list) \<Rightarrow> bool \<Rightarrow> interaction \<Rightarrow> tournamentState
     \<Rightarrow> (reply list \<times> tournamentState) option" where
  "interactionCreate_v1 shuffle fetched i st =
     (if \<not> isChatInputCommand i then Some ([], st)
      else if commandName i = ''endtournament'' then
        (if \<not> isAdmin i then Some ([AdminRequired], st)
         else if \<not> isActive st then Some ([NoTournamentToEnd], st)
         else map_option (Pair [Ended]) (updateTournamentPost_v1 shuffle fetched (resetState st)))
      else if commandName i = ''updatewinner'' then
        (if \<not> isAdmin i \<or> \<not> isActive st \<or> length (participants st) < 2 \<or> bracket st = []
         then Some ([AdminOrNotStarted], st)
         else
           (let winnerUsername = username (winner_user i) in
            case findMatch_v1 winnerUsername (bracket st) of
              (b, None) \<Rightarrow> Some ([NoActiveMatch winnerUsername], st)
            | (b, Some rep) \<Rightarrow>
                (case advance_v1 shuffle (st\<lparr>bracket := b\<rparr>) of
                   None \<Rightarrow> None
                 | Some (followUps, st2) \<Rightarrow>
                     map_option (Pair (rep # followUps))
                       (updateTournamentPost_v1 shuffle fetched st2))))
      else Some ([], st))"

text \<open>
  \<^verbatim>\<open>POST /start-tournament\<close> of this revision (\<^verbatim>\<open>part_001\<close> lines 485 to 565) does not
  check for missing fields; the second revision's route (lines 1497 to 1590) is that of
  \<^verbatim>\<open>src/index.js\<close>.
\<close>

definition startTournament_v1 ::
  "startRequest \<Rightarrow> bool \<Rightarrow> string option \<Rightarrow> tournamentState \<Rightarrow> tournamentState" where
  "startTournament_v1 req channel_ok sent st =
     (if isActive st then st
      else if \<not> channel_ok then st
      else
        (let st1 = st\<lparr>isActive := True, channelId := Some (req_channelId req),
                      details := Some \<lparr>name = req_name req, prize = req_prize req,
                        entryFee = (if req_entryFee req = [] then ''None'' else req_entryFee req),
                        organizer = ''Web App''\<rparr>,
                      participants := [], bracket := []\<rparr>
         in case sent of None \<Rightarrow> st1 | Some mid \<Rightarrow> st1\<lparr>messageId := Some mid\<rparr>))"

section \<open>Reachable states and the invariant on winners\<close>

text \<open>
  The states the program can be in: it starts from the initial object and every further
  state is the result of one handler. The random sort is taken to return a permutation
  of its argument; every other input of a handler is arbitrary.
\<close>

inductive reachable :: "tournamentState \<Rightarrow> bool" where
  reachable_init: "reachable initialState"
| reachable_start: "reachable st \<Longrightarrow> reachable (startTournament req channel_ok sent st)"
| reachable_join:
    "reachable st \<Longrightarrow> \<forall>ps. mset (shuffle ps) = mset ps \<Longrightarrow>
     messageReactionAdd shuffle fetched r st = Some (rs, st') \<Longrightarrow> reachable st'"
| reachable_command:
    "reachable st \<Longrightarrow> \<forall>ps. mset (shuffle ps) = mset ps \<Longrightarrow>
     interactionCreate shuffle fetched i st = Some (rs, st') \<Longrightarrow> reachable st'"

inductive reachable_v1 :: "tournamentState \<Rightarrow> bool" where
  reachable_v1_init: "reachable_v1 initialState"
| reachable_v1_start: "reachable_v1 st \<Longrightarrow> reachable_v1 (startTournament_v1 req channel_ok sent st)"
| reachable_v1_join:
    "reachable_v1 st \<Longrightarrow> \<forall>ps. mset (shuffle ps) = mset ps \<Longrightarrow>
     messageReactionAdd_v1 shuffle fetched r st = Some (rs, st') \<Longrightarrow> reachable_v1 st'"
| reachable_v1_command:
    "reachable_v1 st \<Longrightarrow> \<forall>ps. mset (shuffle ps) = mset ps \<Longrightarrow>
     interactionCreate_v1 shuffle fetched i st = Some (rs, st') \<Longrightarrow> reachable_v1 st'"

inductive reachable_v2 :: "tournamentState \<Rightarrow> bool" where
  reachable_v2_init: "reachable_v2 initialState"
| reachable_v2_start: "reachable_v2 st \<Longrightarrow> reachable_v2 (startTournament req channel_ok sent st)"
| reachable_v2_join:
    "reachable_v2 st \<Longrightarrow> \<forall>ps. mset (shuffle ps) = mset ps \<Longrightarrow>
     messageReactionAdd_v2 shuffle fetched r st = Some (rs, st') \<Longrightarrow> reachable_v2 st'"
| reachable_v2_command:
    "reachable_v2 st \<Longrightarrow> \<forall>ps. mset (shuffle ps) = mset ps \<Longrightarrow>
     interactionCreate_v2 shuffle fetched i st = Some (rs, st') \<Longrightarrow> reachable_v2 st'"

text \<open>The invariant of the data model: a winner, once set, is one of the two slots.\<close>

definition winnerIsSlot :: "match \<Rightarrow> bool" where
  "winnerIsSlot m = (case winner m of None \<Rightarrow> True | Some w \<Rightarrow> w = p1 m \<or> w = p2 m)"

definition winner_ok :: "tournamentState \<Rightarrow> bool" where
  "winner_ok st = list_all winnerIsSlot (bracket st)"

section \<open>The tournament in progress\<close>





section \<open>Playing a tournament to its end\<close>

text \<open>
  The notions in which the convergence of the second revision of \<^verbatim>\<open>part_001\<close> is
  stated. The names in the slots of a bracket, \<^verbatim>\<open>BYE\<close> left out, in the order of the
  matches.
\<close>

definition realNames :: "match list \<Rightarrow> string list" where
  "realNames b = filter (\<lambda>x. x \<noteq> ''BYE'') (concat (map (\<lambda>m. [p1 m, p2 m]) b))"

text \<open>A match is seated when its first slot holds a participant, its second one a
  participant or \<^verbatim>\<open>BYE\<close>, and its winner, if set, is one of the two and not \<^verbatim>\<open>BYE\<close>.\<close>

definition seated :: "string set \<Rightarrow> match \<Rightarrow> bool" where
  "seated names m =
     (p1 m \<in> names \<and> (p2 m = ''BYE'' \<or> p2 m \<in> names)
      \<and> (winner m = None \<or> winner m = Some (p1 m) \<or> (winner m = Some (p2 m) \<and> p2 m \<noteq> ''BYE'')))"

text \<open>
  A round in play: the tournament is active, some match is open, the number of matches
  is a power of two, no participant sits in two slots, no participant is called
  \<^verbatim>\<open>BYE\<close> or has the empty name, and every match is seated.
\<close>

definition fair :: "tournamentState \<Rightarrow> bool" where
  "fair st =
     (isActive st \<and> 2 \<le> length (participants st) \<and> \<not> allComplete (bracket st)
      \<and> (\<exists>j. length (bracket st) = 2 ^ j)
      \<and> distinct (realNames (bracket st))
      \<and> ''BYE'' \<notin> username ` set (participants st)
      \<and> [] \<notin> username ` set (participants st)
      \<and> list_all (seated (username ` set (participants st))) (bracket st))"

text \<open>A valid winner: a name other than \<^verbatim>\<open>BYE\<close> in a slot of an unresolved match.\<close>

definition validWinner :: "string \<Rightarrow> tournamentState \<Rightarrow> bool" where
  "validWinner w st = (w \<noteq> ''BYE'' \<and> list_ex (isOpenMatchOf w) (bracket st))"

text \<open>The follow-up messages that tell the end of a round.\<close>

fun endsRound :: "reply \<Rightarrow> bool" where
  "endsRound (RoundComplete k) = True"
| "endsRound (TournamentWon w) = True"
| "endsRound r = False"

text \<open>The declarations still to come: one for each open match of the round and one for
  each match of the later rounds.\<close>

definition todo :: "match list \<Rightarrow> nat" where
  "todo b = length (filter (\<lambda>m. winner m = None) b) + length b - 1"

text \<open>
  \<open>plays_v2 st n r st'\<close>: from \<open>st\<close>, \<open>n\<close> declarations of valid winners by an administrator,
  each with any outcome of the random sort and of the network, lead to \<open>st'\<close> and end
  \<open>r\<close> rounds on the way.
\<close>

inductive plays_v2 :: "tournamentState \<Rightarrow> nat \<Rightarrow> nat \<Rightarrow> tournamentState \<Rightarrow> bool" where
  plays_v2_start: "plays_v2 st 0 0 st"
| plays_v2_declare:
    "plays_v2 st d r st1 \<Longrightarrow> validWinner w st1 \<Longrightarrow> \<forall>ps. mset (shuffle ps) = mset ps \<Longrightarrow>
     isChatInputCommand i \<Longrightarrow> commandName i = ''updatewinner'' \<Longrightarrow> isAdmin i \<Longrightarrow>
     username (winner_user i) = w \<Longrightarrow>
     interactionCreate_v2 shuffle fetched i st1 = Some (rs, st2) \<Longrightarrow>
     plays_v2 st (d + 1) (r + length (filter endsRound rs)) st2"

section \<open>Closed forms of the pairing loops\<close>

text \<open>The entry that iteration \<open>i\<close> of the pairing loop pushes; the loops are shown
  below to map these functions over the indices \<open>0, \<dots>, \<lceil>length / 2\<rceil> - 1\<close>.\<close>

definition mk_match :: "player list \<Rightarrow> nat \<Rightarrow> match" where
  "mk_match sp i = \<lparr>matchId = i + 1, p1 = username (sp ! i),
      p2 = username (sp ! (length sp - 1 - i)), winner = None\<rparr>"

definition mk_match_v1 :: "player list \<Rightarrow> nat \<Rightarrow> match" where
  "mk_match_v1 sp i =
     (let a = sp ! i; b = sp ! (length sp - 1 - i) in
      \<lparr>matchId = i + 1, p1 = username a, p2 = username b,
       winner = (if username a = ''BYE'' then Some (username b)
                 else if username b = ''BYE'' then Some (username a) else None)\<rparr>)"

section \<open>Concrete participants, events and states\<close>

text \<open>Four participants, the reaction by which one of them joins, the command that
  declares one of them winner, and a tournament posted as message \<open>m1\<close> in channel
  \<open>c1\<close>; the examples below run the handlers on them.\<close>

definition alice :: player where "alice = \<lparr>id_p = ''1'', username = ''alice''\<rparr>"
definition bob :: player where "bob = \<lparr>id_p = ''2'', username = ''bob''\<rparr>"
definition carol :: player where "carol = \<lparr>id_p = ''3'', username = ''carol''\<rparr>"
definition dave :: player where "dave = \<lparr>id_p = ''4'', username = ''dave''\<rparr>"

definition joins :: "player \<Rightarrow> reaction" where
  "joins p = \<lparr>user_bot = False, message_id = ''m1'', emoji_name = tick, user = p\<rparr>"

definition joins_v1 :: "player \<Rightarrow> reaction" where
  "joins_v1 p = \<lparr>user_bot = False, message_id = ''m1'', emoji_name = tick_v1, user = p\<rparr>"

definition declares :: "player \<Rightarrow> interaction" where
  "declares p = \<lparr>isChatInputCommand = True, commandName = ''updatewinner'', isAdmin = True,
     winner_user = p\<rparr>"

definition ex_request :: startRequest where
  "ex_request = \<lparr>req_name = ''Cup'', req_prize = ''Cake'', req_guildId = ''g1'',
     req_channelId = ''c1'', req_entryFee = ''''\<rparr>"

definition ex_state :: "bool \<Rightarrow> player list \<Rightarrow> match list \<Rightarrow> tournamentState" where
  "ex_state active ps b = \<lparr>isActive = active, channelId = Some ''c1'', messageId = Some ''m1'',
     participants = ps,
     details = Some \<lparr>name = ''Cup'', prize = ''Cake'', entryFee = ''None'', organizer = ''Web App''\<rparr>,
     bracket = b\<rparr>"

section \<open>The loops return\<close>

text \<open>From a positive start value the doubling loop stops, at the first value of the
  form \<open>p * 2 ^ k\<close> that is not below \<open>n\<close>.\<close>

lemma nextPowerOfTwo_loop_returns:
  "0 < p \<Longrightarrow> \<exists>k. nextPowerOfTwo_loop p n = Some (p * 2 ^ k) \<and> n \<le> p * 2 ^ k
      \<and> (\<forall>j. n \<le> p * 2 ^ j \<longrightarrow> k \<le> j)"
proof (induction "n - p" arbitrary: p rule: less_induct)
  case less
  show ?case
  proof (cases "p < n")
    case False
    then have "nextPowerOfTwo_loop p n = Some (p * 2 ^ 0)"
      by (simp add: nextPowerOfTwo_loop.simps)
    with False show ?thesis
      by (intro exI[of _ 0]) simp
  next
    case True
    with less.prems have "n - p * 2 < n - p" by simp
    from less.hyps[OF this] less.prems obtain k where
      k: "nextPowerOfTwo_loop (p * 2) n = Some (p * 2 * 2 ^ k)" "n \<le> p * 2 * 2 ^ k"
         "\<forall>j. n \<le> p * 2 * 2 ^ j \<longrightarrow> k \<le> j"
      by auto
    have 1: "nextPowerOfTwo_loop p n = Some (p * 2 ^ Suc k)"
      using True k(1) by (subst nextPowerOfTwo_loop.simps) (simp add: mult.assoc)
    have 2: "n \<le> p * 2 ^ Suc k" using k(2) by (simp add: mult.assoc)
    have 3: "\<forall>j. n \<le> p * 2 ^ j \<longrightarrow> Suc k \<le> j"
    proof (intro allI impI)
      fix j assume j: "n \<le> p * 2 ^ j"
      with True have "j \<noteq> 0" by (cases j) auto
      then obtain j' where j': "j = Suc j'" by (cases j) auto
      with j have "n \<le> p * 2 * 2 ^ j'" by (simp add: mult.assoc)
      with k(3) have "k \<le> j'" by blast
      with j' show "Suc k \<le> j" by simp
    qed
    from 1 2 3 show ?thesis by blast
  qed
qed

lemma nextPowerOfTwo_returns:
  "\<exists>k. nextPowerOfTwo n = Some (2 ^ k) \<and> n \<le> 2 ^ k \<and> (\<forall>j. n \<le> 2 ^ j \<longrightarrow> k \<le> j)"
  using nextPowerOfTwo_loop_returns[of 1 n] by (simp add: nextPowerOfTwo_def)

lemma pairings_loop_eq:
  "pairings_loop i sp acc = acc @ map (mk_match sp) [i..<(length sp + 1) div 2]"
proof (induction i sp acc rule: pairings_loop.induct)
  case (1 i sp acc)
  show ?case
  proof (cases "2 * i < length sp")
    case True
    then have "i < (length sp + 1) div 2" by linarith
    then have "[i..<(length sp + 1) div 2] = i # [i + 1..<(length sp + 1) div 2]"
      by (simp add: upt_conv_Cons)
    with True 1 show ?thesis
      by (subst pairings_loop.simps) (simp add: mk_match_def)
  next
    case False
    then have "(length sp + 1) div 2 \<le> i" by linarith
    with False show ?thesis by (subst pairings_loop.simps) simp
  qed
qed

lemma pairings_loop_v1_eq:
  "pairings_loop_v1 i sp acc = acc @ map (mk_match_v1 sp) [i..<(length sp + 1) div 2]"
proof (induction i sp acc rule: pairings_loop_v1.induct)
  case (1 i sp acc)
  show ?case
  proof (cases "2 * i < length sp")
    case True
    then have "i < (length sp + 1) div 2" by linarith
    then have "[i..<(length sp + 1) div 2] = i # [i + 1..<(length sp + 1) div 2]"
      by (simp add: upt_conv_Cons)
    with True 1 show ?thesis
      by (subst pairings_loop_v1.simps) (simp add: mk_match_v1_def Let_def)
  next
    case False
    then have "(length sp + 1) div 2 \<le> i" by linarith
    with False show ?thesis by (subst pairings_loop_v1.simps) simp
  qed
qed

text \<open>On a list of even length \<open>2 * h\<close> the first slots are the first half of the list and
  the second slots its second half, read backwards.\<close>

lemma slots_p1:
  assumes "length sp = 2 * h"
  shows "map (\<lambda>i. username (sp ! i)) [0..<h] = map username (take h sp)"
proof (rule nth_equalityI)
  show "length (map (\<lambda>i. username (sp ! i)) [0..<h]) = length (map username (take h sp))"
    using assms by simp
next
  fix i assume "i < length (map (\<lambda>i. username (sp ! i)) [0..<h])"
  then have "i < h" by simp
  then show "map (\<lambda>i. username (sp ! i)) [0..<h] ! i = map username (take h sp) ! i"
    using assms by simp
qed

lemma slots_p2:
  assumes "length sp = 2 * h"
  shows "map (\<lambda>i. username (sp ! (length sp - 1 - i))) [0..<h] = map username (rev (drop h sp))"
proof (rule nth_equalityI)
  show "length (map (\<lambda>i. username (sp ! (length sp - 1 - i))) [0..<h]) = length (map username (rev (drop h sp)))"
    using assms by simp
next
  fix i assume "i < length (map (\<lambda>i. username (sp ! (length sp - 1 - i))) [0..<h])"
  then have i: "i < h" by simp
  then have "rev (drop h sp) ! i = drop h sp ! (h - Suc i)"
    using assms by (simp add: rev_nth)
  also have "\<dots> = sp ! (h + (h - Suc i))" using assms i by simp
  also have "h + (h - Suc i) = length sp - 1 - i" using assms i by simp
  finally have "rev (drop h sp) ! i = sp ! (length sp - 1 - i)" .
  then show "map (\<lambda>i. username (sp ! (length sp - 1 - i))) [0..<h] ! i = map username (rev (drop h sp)) ! i"
    using i assms by simp
qed

lemma slots_mset:
  assumes "length sp = 2 * h"
  shows "mset (map (\<lambda>i. username (sp ! i)) [0..<h])
       + mset (map (\<lambda>i. username (sp ! (length sp - 1 - i))) [0..<h])
       = mset (map username sp)"
proof -
  have "mset (map username (take h sp)) + mset (map username (rev (drop h sp)))
      = mset (map username (take h sp @ drop h sp))"
    by (simp del: append_take_drop_id)
  then show ?thesis
    by (simp only: slots_p1[OF assms] slots_p2[OF assms] append_take_drop_id)
qed

lemma mk_match_sel [simp]:
  "matchId (mk_match sp i) = i + 1" "p1 (mk_match sp i) = username (sp ! i)"
  "p2 (mk_match sp i) = username (sp ! (length sp - 1 - i))" "winner (mk_match sp i) = None"
  by (simp_all add: mk_match_def)

lemma mk_match_v1_sel [simp]:
  "matchId (mk_match_v1 sp i) = i + 1" "p1 (mk_match_v1 sp i) = username (sp ! i)"
  "p2 (mk_match_v1 sp i) = username (sp ! (length sp - 1 - i))"
  by (simp_all add: mk_match_v1_def Let_def)

lemma round_props:
  assumes len: "length sp = 2 * h"
    and f: "\<And>i. matchId (f i) = i + 1" "\<And>i. p1 (f i) = username (sp ! i)"
           "\<And>i. p2 (f i) = username (sp ! (length sp - 1 - i))"
  shows "length (map f [0..<h]) = h"
    and "mset (map p1 (map f [0..<h])) + mset (map p2 (map f [0..<h])) = mset (map username sp)"
    and "map matchId (map f [0..<h]) = [1..<h + 1]"
proof -
  show "length (map f [0..<h]) = h" by simp
  show "mset (map p1 (map f [0..<h])) + mset (map p2 (map f [0..<h])) = mset (map username sp)"
    using slots_mset[OF len] by (simp add: f comp_def)
  have "map matchId (map f [0..<h]) = map Suc [0..<h]" by (simp add: f comp_def)
  then show "map matchId (map f [0..<h]) = [1..<h + 1]"
    by (simp add: map_Suc_upt)
qed

lemma generatePairings_closed:
  assumes "nextPowerOfTwo (length (shuffle players)) = Some npt"
  shows "generatePairings shuffle players =
     Some (map (mk_match (shuffle players @ replicate (npt - length (shuffle players)) BYE))
            [0..<(length (shuffle players) + (npt - length (shuffle players)) + 1) div 2])"
  using assms by (simp add: generatePairings_def Let_def pairings_loop_eq)

lemma generatePairings_v1_closed:
  assumes "nextPowerOfTwo (length (shuffle players)) = Some npt" "2 \<le> length players"
  shows "generatePairings_v1 shuffle players =
     Some (map (mk_match_v1 (shuffle players @ replicate (npt - length (shuffle players)) BYE))
            [0..<(length (shuffle players) + (npt - length (shuffle players)) + 1) div 2])"
  using assms by (simp add: generatePairings_v1_def Let_def pairings_loop_v1_eq)

lemma username_BYE [simp]: "username BYE = ''BYE''"
  by (simp add: BYE_def)

lemma generatePairings_returns: "\<exists>b. generatePairings shuffle players = Some b"
  using nextPowerOfTwo_returns[of "length (shuffle players)"]
  by (auto simp: generatePairings_def Let_def)

lemma generatePairings_v2_returns: "\<exists>b. generatePairings_v2 shuffle players = Some b"
  using generatePairings_returns by (simp add: generatePairings_v2_def)

lemma generatePairings_v1_returns: "\<exists>b. generatePairings_v1 shuffle players = Some b"
  using nextPowerOfTwo_returns[of "length (shuffle players)"]
  by (auto simp: generatePairings_v1_def Let_def)

section \<open>The handlers, step by step\<close>

text \<open>\<^verbatim>\<open>updateTournamentPost\<close> changes nothing but the bracket, and only an empty one.\<close>

lemma updateTournamentPost_cases:
  "updateTournamentPost shuffle fetched st = Some st \<or>
   (\<exists>b. updateTournamentPost shuffle fetched st = Some (st\<lparr>bracket := b\<rparr>)
        \<and> generatePairings shuffle (participants st) = Some b \<and> bracket st = [])"
  using generatePairings_returns[of shuffle "participants st"]
  by (auto simp: updateTournamentPost_def)

lemma updateTournamentPost_v2_cases:
  "updateTournamentPost_v2 shuffle fetched st = Some st \<or>
   (\<exists>b. updateTournamentPost_v2 shuffle fetched st = Some (st\<lparr>bracket := b\<rparr>)
        \<and> generatePairings_v2 shuffle (participants st) = Some b \<and> bracket st = [])"
  using generatePairings_v2_returns[of shuffle "participants st"]
  by (auto simp: updateTournamentPost_v2_def)

lemma updateTournamentPost_v1_cases:
  "updateTournamentPost_v1 shuffle fetched st = Some st \<or>
   (\<exists>b. updateTournamentPost_v1 shuffle fetched st = Some (st\<lparr>bracket := b\<rparr>)
        \<and> generatePairings_v1 shuffle (participants st) = Some b \<and> bracket st = [])"
  using generatePairings_v1_returns[of shuffle "participants st"]
  by (auto simp: updateTournamentPost_v1_def)

lemma updateTournamentPost_nonempty:
  "bracket st \<noteq> [] \<Longrightarrow> updateTournamentPost shuffle fetched st = Some st"
  "bracket st \<noteq> [] \<Longrightarrow> updateTournamentPost_v1 shuffle fetched st = Some st"
  "bracket st \<noteq> [] \<Longrightarrow> updateTournamentPost_v2 shuffle fetched st = Some st"
  by (simp_all add: updateTournamentPost_def updateTournamentPost_v1_def updateTournamentPost_v2_def)

text \<open>A second reaction of a user whose id is in the roster changes nothing.\<close>

lemma join_twice:
  assumes "id_p u = id_p (user r)"
  shows "\<exists>rs st1. messageReactionAdd shuffle fetched r st = Some (rs, st1)
           \<and> messageReactionAdd shuffle' fetched' (r\<lparr>user := u\<rparr>) st1 = Some ([], st1)"
proof (cases "user_bot r \<or> Some (message_id r) \<noteq> messageId st \<or> emoji_name r \<noteq> tick \<or> \<not> isActive st
     \<or> list_ex (\<lambda>p. id_p p = id_p (user r)) (participants st)")
  case True
  then have "messageReactionAdd shuffle fetched r st = Some ([], st)"
    by (auto simp: messageReactionAdd_def)
  moreover from True assms have "messageReactionAdd shuffle' fetched' (r\<lparr>user := u\<rparr>) st = Some ([], st)"
    by (auto simp: messageReactionAdd_def)
  ultimately show ?thesis by blast
next
  case False
  let ?st1 = "st\<lparr>participants := participants st @ [user r]\<rparr>"
  from updateTournamentPost_cases[of shuffle fetched ?st1]
  obtain st2 where st2: "updateTournamentPost shuffle fetched ?st1 = Some st2"
     "isActive st2 = isActive st" "messageId st2 = messageId st"
     "participants st2 = participants st @ [user r]"
    by auto
  from False st2(1) have 1: "messageReactionAdd shuffle fetched r st
      = Some ([LoggedJoined (username (user r))], st2)"
    by (simp add: messageReactionAdd_def)
  from False st2(2-4) assms have 2: "messageReactionAdd shuffle' fetched' (r\<lparr>user := u\<rparr>) st2 = Some ([], st2)"
    by (simp add: messageReactionAdd_def)
  from 1 2 show ?thesis by blast
qed

lemma join_twice_v2:
  assumes "id_p u = id_p (user r)"
  shows "\<exists>rs st1. messageReactionAdd_v2 shuffle fetched r st = Some (rs, st1)
           \<and> messageReactionAdd_v2 shuffle' fetched' (r\<lparr>user := u\<rparr>) st1 = Some ([], st1)"
proof (cases "user_bot r \<or> Some (message_id r) \<noteq> messageId st \<or> emoji_name r \<noteq> tick \<or> \<not> isActive st
     \<or> list_ex (\<lambda>p. id_p p = id_p (user r)) (participants st)")
  case True
  then have "messageReactionAdd_v2 shuffle fetched r st = Some ([], st)"
    by (auto simp: messageReactionAdd_v2_def)
  moreover from True assms have "messageReactionAdd_v2 shuffle' fetched' (r\<lparr>user := u\<rparr>) st = Some ([], st)"
    by (auto simp: messageReactionAdd_v2_def)
  ultimately show ?thesis by blast
next
  case False
  let ?st1 = "st\<lparr>participants := participants st @ [user r]\<rparr>"
  from updateTournamentPost_v2_cases[of shuffle fetched ?st1]
  obtain st2 where st2: "updateTournamentPost_v2 shuffle fetched ?st1 = Some st2"
     "isActive st2 = isActive st" "messageId st2 = messageId st"
     "participants st2 = participants st @ [user r]"
    by auto
  from False st2(1) have 1: "messageReactionAdd_v2 shuffle fetched r st
      = Some ([LoggedJoined (username (user r))], st2)"
    by (simp add: messageReactionAdd_v2_def)
  from False st2(2-4) assms have 2: "messageReactionAdd_v2 shuffle' fetched' (r\<lparr>user := u\<rparr>) st2 = Some ([], st2)"
    by (simp add: messageReactionAdd_v2_def)
  from 1 2 show ?thesis by blast
qed

lemma join_twice_v1:
  assumes "id_p u = id_p (user r)"
  shows "\<exists>rs st1. messageReactionAdd_v1 shuffle fetched r st = Some (rs, st1)
           \<and> messageReactionAdd_v1 shuffle' fetched' (r\<lparr>user := u\<rparr>) st1 = Some ([], st1)"
proof (cases "user_bot r \<or> Some (message_id r) \<noteq> messageId st \<or> emoji_name r \<noteq> tick_v1 \<or> \<not> isActive st
     \<or> list_ex (\<lambda>p. id_p p = id_p (user r)) (participants st)")
  case True
  then have "messageReactionAdd_v1 shuffle fetched r st = Some ([], st)"
    by (auto simp: messageReactionAdd_v1_def)
  moreover from True assms have "messageReactionAdd_v1 shuffle' fetched' (r\<lparr>user := u\<rparr>) st = Some ([], st)"
    by (auto simp: messageReactionAdd_v1_def)
  ultimately show ?thesis by blast
next
  case False
  let ?st1 = "st\<lparr>participants := participants st @ [user r]\<rparr>"
  define st1' where "st1' =
     (if 2 \<le> length (participants ?st1) \<and> bracket ?st1 = []
      then (case generatePairings_v1 shuffle (participants ?st1) of
              None \<Rightarrow> ?st1 | Some b \<Rightarrow> ?st1\<lparr>bracket := b\<rparr>)
      else ?st1)"
  have st1': "isActive st1' = isActive st" "messageId st1' = messageId st"
     "participants st1' = participants st @ [user r]"
    by (auto simp: st1'_def split: option.splits)
  have gen: "(if 2 \<le> length (participants ?st1) \<and> bracket ?st1 = []
           then (case generatePairings_v1 shuffle (participants ?st1) of
                    None \<Rightarrow> None
                  | Some b \<Rightarrow>
                      map_option (Pair [LoggedJoined (username (user r))])
                        (updateTournamentPost_v1 shuffle fetched (?st1\<lparr>bracket := b\<rparr>)))
            else map_option (Pair [LoggedJoined (username (user r))])
                   (updateTournamentPost_v1 shuffle fetched ?st1))
        = map_option (Pair [LoggedJoined (username (user r))]) (updateTournamentPost_v1 shuffle fetched st1')"
    using generatePairings_v1_returns[of shuffle "participants ?st1"]
    by (auto simp: st1'_def)
  from updateTournamentPost_v1_cases[of shuffle fetched st1'] st1'
  obtain st2 where st2: "updateTournamentPost_v1 shuffle fetched st1' = Some st2"
     "isActive st2 = isActive st" "messageId st2 = messageId st"
     "participants st2 = participants st @ [user r]"
    by auto
  from False st2(1) gen have 1: "messageReactionAdd_v1 shuffle fetched r st
      = Some ([LoggedJoined (username (user r))], st2)"
    by (simp add: messageReactionAdd_v1_def Let_def)
  from False st2(2-4) assms have 2: "messageReactionAdd_v1 shuffle' fetched' (r\<lparr>user := u\<rparr>) st2 = Some ([], st2)"
    by (simp add: messageReactionAdd_v1_def)
  from 1 2 show ?thesis by blast
qed

text \<open>The search loop.\<close>

lemma findMatch_first:
  "(\<not> list_ex (isOpenMatchOf w) b \<and> findMatch w b = (b, None))
   \<or> (\<exists>i<length b. isOpenMatchOf w (b ! i) \<and> (\<forall>j<i. \<not> isOpenMatchOf w (b ! j))
         \<and> fst (findMatch w b) = b[i := (b ! i)\<lparr>winner := Some w\<rparr>]
         \<and> snd (findMatch w b) \<noteq> None)"
proof (induction b)
  case Nil
  show ?case by simp
next
  case (Cons m ms)
  show ?case
  proof (cases "isOpenMatchOf w m")
    case True
    then have "isOpenMatchOf w ((m # ms) ! 0) \<and> (\<forall>j<0. \<not> isOpenMatchOf w ((m # ms) ! j))
       \<and> fst (findMatch w (m # ms)) = (m # ms)[0 := ((m # ms) ! 0)\<lparr>winner := Some w\<rparr>]
       \<and> snd (findMatch w (m # ms)) \<noteq> None"
      by simp
    then show ?thesis by (intro disjI2 exI[of _ 0]) simp
  next
    case False
    from Cons.IH show ?thesis
    proof
      assume "\<not> list_ex (isOpenMatchOf w) ms \<and> findMatch w ms = (ms, None)"
      with False show ?thesis by simp
    next
      assume "\<exists>i<length ms. isOpenMatchOf w (ms ! i) \<and> (\<forall>j<i. \<not> isOpenMatchOf w (ms ! j))
         \<and> fst (findMatch w ms) = ms[i := (ms ! i)\<lparr>winner := Some w\<rparr>]
         \<and> snd (findMatch w ms) \<noteq> None"
      then obtain i where i: "i < length ms" "isOpenMatchOf w (ms ! i)"
          "\<forall>j<i. \<not> isOpenMatchOf w (ms ! j)"
          "fst (findMatch w ms) = ms[i := (ms ! i)\<lparr>winner := Some w\<rparr>]"
          "snd (findMatch w ms) \<noteq> None"
        by blast
      have 1: "\<forall>j<Suc i. \<not> isOpenMatchOf w ((m # ms) ! j)"
        using False i(3) by (auto simp: less_Suc_eq_0_disj)
      have 2: "fst (findMatch w (m # ms)) = (m # ms)[Suc i := ((m # ms) ! Suc i)\<lparr>winner := Some w\<rparr>]"
        using False i(4) by (auto split: prod.splits)
      have 3: "snd (findMatch w (m # ms)) \<noteq> None"
        using False i(5) by (auto split: prod.splits)
      from i(1,2) 1 2 3 show ?thesis
        by (intro disjI2 exI[of _ "Suc i"]) simp
    qed
  qed
qed

lemma findMatch_v1_fst: "fst (findMatch_v1 w b) = fst (findMatch w b)"
  by (induction b) (auto split: prod.splits)

lemma findMatch_v1_snd: "snd (findMatch_v1 w b) = None \<longleftrightarrow> snd (findMatch w b) = None"
  by (induction b) (auto split: prod.splits)

lemma findMatch_none:
  "\<not> list_ex (isOpenMatchOf w) b \<Longrightarrow> findMatch w b = (b, None)"
  "\<not> list_ex (isOpenMatchOf w) b \<Longrightarrow> findMatch_v1 w b = (b, None)"
  by (induction b) auto

lemma findMatch_reply:
  "snd (findMatch w b) = Some rep \<Longrightarrow> rep = AdvancedBye w \<or> rep = Advanced w"
  by (induction b) (auto split: prod.splits if_splits)

lemma findMatch_length: "length (fst (findMatch w b)) = length b"
  by (induction b) (auto split: prod.splits)

lemma interactionCreate_username:
  assumes "username u1 = username u2"
  shows "interactionCreate shuffle fetched (i\<lparr>winner_user := u1\<rparr>) st
           = interactionCreate shuffle fetched (i\<lparr>winner_user := u2\<rparr>) st"
    and "interactionCreate_v1 shuffle fetched (i\<lparr>winner_user := u1\<rparr>) st
           = interactionCreate_v1 shuffle fetched (i\<lparr>winner_user := u2\<rparr>) st"
    and "interactionCreate_v2 shuffle fetched (i\<lparr>winner_user := u1\<rparr>) st
           = interactionCreate_v2 shuffle fetched (i\<lparr>winner_user := u2\<rparr>) st"
  using assms
  by (simp_all add: interactionCreate_def interactionCreate_v1_def interactionCreate_v2_def)

lemma first_has_least_matchId:
  assumes "sorted (map matchId b)" "i < length b" "\<forall>j<i. \<not> isOpenMatchOf w (b ! j)"
    and "m \<in> set b" "isOpenMatchOf w m"
  shows "matchId (b ! i) \<le> matchId m"
proof -
  from assms(4) obtain k where k: "k < length b" "b ! k = m" by (auto simp: in_set_conv_nth)
  with assms(3,5) have "i \<le> k" by (meson not_le_imp_less)
  with assms(1) k(1) have "map matchId b ! i \<le> map matchId b ! k"
    by (simp add: sorted_iff_nth_mono del: nth_map)
  with k assms(2) show ?thesis by simp
qed

text \<open>The search loop at the least index of an open match that holds the name.\<close>

lemma findMatch_at:
  assumes "k < length b" "isOpenMatchOf w (b ! k)" "\<forall>j<k. \<not> isOpenMatchOf w (b ! j)"
  shows "findMatch w b = (b[k := (b ! k)\<lparr>winner := Some w\<rparr>],
           Some (if p1 (b ! k) = ''BYE'' \<or> p2 (b ! k) = ''BYE''
                 then AdvancedBye w else Advanced w))"
    and "findMatch_v1 w b = (b[k := (b ! k)\<lparr>winner := Some w\<rparr>],
           Some (AdvancedAgainst w (if p1 (b ! k) = w then p2 (b ! k) else p1 (b ! k))))"
  using assms
proof (induction b arbitrary: k)
  case Nil
  { case 1 then show ?case by simp }
  { case 2 then show ?case by simp }
next
  case (Cons m ms)
  { case 1
    show ?case
    proof (cases k)
      case 0
      with 1 show ?thesis by simp
    next
      case (Suc k')
      with 1 have m: "\<not> isOpenMatchOf w m" by auto
      from 1 Suc have "k' < length ms" "isOpenMatchOf w (ms ! k')"
        "\<forall>j<k'. \<not> isOpenMatchOf w (ms ! j)" by auto
      from Cons.IH(1)[OF this] m Suc show ?thesis by simp
    qed }
  { case 2
    show ?case
    proof (cases k)
      case 0
      with 2 show ?thesis by simp
    next
      case (Suc k')
      with 2 have m: "\<not> isOpenMatchOf w m" by auto
      from 2 Suc have "k' < length ms" "isOpenMatchOf w (ms ! k')"
        "\<forall>j<k'. \<not> isOpenMatchOf w (ms ! j)" by auto
      from Cons.IH(2)[OF this] m Suc show ?thesis by simp
    qed }
qed

lemma first_open:
  assumes "list_ex (isOpenMatchOf w) b"
  shows "\<exists>k<length b. isOpenMatchOf w (b ! k) \<and> (\<forall>j<k. \<not> isOpenMatchOf w (b ! j))"
  using findMatch_first[of w b] assms by blast

text \<open>Every handler keeps the invariant on winners.\<close>

lemma findMatch_winnerIsSlot:
  "list_all winnerIsSlot b \<Longrightarrow> list_all winnerIsSlot (fst (findMatch w b))"
  by (induction b) (auto simp: winnerIsSlot_def isOpenMatchOf_def split: prod.splits)

lemma mk_match_winnerIsSlot: "winnerIsSlot (mk_match sp i)" "winnerIsSlot (mk_match_v1 sp i)"
  by (simp_all add: winnerIsSlot_def mk_match_def mk_match_v1_def Let_def)

lemma generatePairings_winnerIsSlot:
  "generatePairings shuffle ps = Some b \<Longrightarrow> list_all winnerIsSlot b"
  by (auto simp: generatePairings_def Let_def pairings_loop_eq list_all_iff mk_match_winnerIsSlot
           split: option.splits)

lemma generatePairings_v2_winnerIsSlot:
  "generatePairings_v2 shuffle ps = Some b \<Longrightarrow> list_all winnerIsSlot b"
  by (auto simp: generatePairings_v2_def generatePairings_winnerIsSlot split: if_splits)

lemma generatePairings_v1_winnerIsSlot:
  "generatePairings_v1 shuffle ps = Some b \<Longrightarrow> list_all winnerIsSlot b"
  by (auto simp: generatePairings_v1_def Let_def pairings_loop_v1_eq list_all_iff mk_match_winnerIsSlot
           split: option.splits if_splits)

lemma updateTournamentPost_winner_ok:
  "winner_ok st \<Longrightarrow> updateTournamentPost shuffle fetched st = Some st' \<Longrightarrow> winner_ok st'"
  using updateTournamentPost_cases[of shuffle fetched st]
  by (auto simp: winner_ok_def generatePairings_winnerIsSlot)

lemma updateTournamentPost_v1_winner_ok:
  "winner_ok st \<Longrightarrow> updateTournamentPost_v1 shuffle fetched st = Some st' \<Longrightarrow> winner_ok st'"
  using updateTournamentPost_v1_cases[of shuffle fetched st]
  by (auto simp: winner_ok_def generatePairings_v1_winnerIsSlot)

lemma updateTournamentPost_v2_winner_ok:
  "winner_ok st \<Longrightarrow> updateTournamentPost_v2 shuffle fetched st = Some st' \<Longrightarrow> winner_ok st'"
  using updateTournamentPost_v2_cases[of shuffle fetched st]
  by (auto simp: winner_ok_def generatePairings_v2_winnerIsSlot)

lemma startTournament_winner_ok:
  "winner_ok st \<Longrightarrow> winner_ok (startTournament req ok sent st)"
  "winner_ok st \<Longrightarrow> winner_ok (startTournament_v1 req ok sent st)"
  by (auto simp: startTournament_def startTournament_v1_def winner_ok_def Let_def split: option.splits)

lemma messageReactionAdd_winner_ok:
  "winner_ok st \<Longrightarrow> messageReactionAdd shuffle fetched r st = Some (rs, st') \<Longrightarrow> winner_ok st'"
  by (auto simp: messageReactionAdd_def split: if_splits
           dest!: updateTournamentPost_winner_ok[rotated] simp: winner_ok_def)

lemma messageReactionAdd_v2_winner_ok:
  "winner_ok st \<Longrightarrow> messageReactionAdd_v2 shuffle fetched r st = Some (rs, st') \<Longrightarrow> winner_ok st'"
  by (auto simp: messageReactionAdd_v2_def split: if_splits
           dest!: updateTournamentPost_v2_winner_ok[rotated] simp: winner_ok_def)

lemma messageReactionAdd_v1_winner_ok:
  "winner_ok st \<Longrightarrow> messageReactionAdd_v1 shuffle fetched r st = Some (rs, st') \<Longrightarrow> winner_ok st'"
  by (auto simp: messageReactionAdd_v1_def Let_def split: if_splits option.splits
           dest!: updateTournamentPost_v1_winner_ok[rotated] generatePairings_v1_winnerIsSlot
           simp: winner_ok_def)

lemma advance_winner_ok:
  "winner_ok st \<Longrightarrow> advance shuffle st = Some (rs, st') \<Longrightarrow> winner_ok st'"
  by (auto simp: advance_def Let_def winner_ok_def split: if_splits option.splits
           dest: generatePairings_winnerIsSlot)

lemma champion_winnerIsSlot:
  "winnerIsSlot \<lparr>matchId = k, p1 = w, p2 = c, winner = Some w\<rparr>"
  by (simp add: winnerIsSlot_def)

lemma advance_v2_winner_ok:
  "winner_ok st \<Longrightarrow> advance_v2 shuffle st = Some (rs, st') \<Longrightarrow> winner_ok st'"
  by (auto simp: advance_v2_def Let_def winner_ok_def champion_winnerIsSlot
           split: if_splits option.splits dest: generatePairings_v2_winnerIsSlot)

lemma advance_v1_winner_ok:
  "winner_ok st \<Longrightarrow> advance_v1 shuffle st = Some (rs, st') \<Longrightarrow> winner_ok st'"
  by (auto simp: advance_v1_def Let_def winner_ok_def champion_winnerIsSlot
           split: if_splits option.splits dest: generatePairings_v1_winnerIsSlot)

lemma interactionCreate_winner_ok:
  assumes "winner_ok st" "interactionCreate shuffle fetched i st = Some (rs, st')"
  shows "winner_ok st'"
proof -
  have b: "winner_ok (st\<lparr>bracket := fst (findMatch w (bracket st))\<rparr>)" for w
    using assms(1) by (simp add: winner_ok_def findMatch_winnerIsSlot)
  show ?thesis
    using assms b[of "username (winner_user i)"]
    by (auto simp: interactionCreate_def Let_def split: if_splits prod.splits option.splits
             dest: advance_winner_ok[rotated] updateTournamentPost_winner_ok[rotated])
qed

lemma interactionCreate_v2_winner_ok:
  assumes "winner_ok st" "interactionCreate_v2 shuffle fetched i st = Some (rs, st')"
  shows "winner_ok st'"
proof -
  have b: "winner_ok (st\<lparr>bracket := fst (findMatch w (bracket st))\<rparr>)" for w
    using assms(1) by (simp add: winner_ok_def findMatch_winnerIsSlot)
  have r: "winner_ok (resetState st)" by (simp add: winner_ok_def resetState_def)
  show ?thesis
    using assms b[of "username (winner_user i)"] r
    by (auto simp: interactionCreate_v2_def Let_def split: if_splits prod.splits option.splits
             dest: advance_v2_winner_ok[rotated] updateTournamentPost_v2_winner_ok[rotated])
qed

lemma interactionCreate_v1_winner_ok:
  assumes "winner_ok st" "interactionCreate_v1 shuffle fetched i st = Some (rs, st')"
  shows "winner_ok st'"
proof -
  have b: "winner_ok (st\<lparr>bracket := fst (findMatch_v1 w (bracket st))\<rparr>)" for w
    using assms(1) by (simp add: winner_ok_def findMatch_winnerIsSlot findMatch_v1_fst)
  have r: "winner_ok (resetState st)" by (simp add: winner_ok_def resetState_def)
  show ?thesis
    using assms b[of "username (winner_user i)"] r
    by (auto simp: interactionCreate_v1_def Let_def split: if_splits prod.splits option.splits
             dest: advance_v1_winner_ok[rotated] updateTournamentPost_v1_winner_ok[rotated])
qed

lemma initialState_winner_ok: "winner_ok initialState"
  by (simp add: winner_ok_def initialState_def)

lemma reachable_winner_ok: "reachable st \<Longrightarrow> winner_ok st"
  by (induction rule: reachable.induct)
     (auto intro: initialState_winner_ok startTournament_winner_ok
        messageReactionAdd_winner_ok interactionCreate_winner_ok)

lemma reachable_v1_winner_ok: "reachable_v1 st \<Longrightarrow> winner_ok st"
  by (induction rule: reachable_v1.induct)
     (auto intro: initialState_winner_ok startTournament_winner_ok
        messageReactionAdd_v1_winner_ok interactionCreate_v1_winner_ok)

lemma reachable_v2_winner_ok: "reachable_v2 st \<Longrightarrow> winner_ok st"
  by (induction rule: reachable_v2.induct)
     (auto intro: initialState_winner_ok startTournament_winner_ok
        messageReactionAdd_v2_winner_ok interactionCreate_v2_winner_ok)

text \<open>
  In \<^verbatim>\<open>src/index.js\<close> a bracket of one match is final for ever: the advancement block
  asks for \<^verbatim>\<open>bracket.length > 1\<close>, so no event ends the tournament or announces a
  winner of it.
\<close>

lemma final_never_completes:
  assumes "isActive st" "length (bracket st) = 1"
  shows "isActive (startTournament req channel_ok sent st) 
         \<and> length (bracket (startTournament req channel_ok sent st)) = 1"
    and "messageReactionAdd shuffle fetched r st = Some (rs, st') \<Longrightarrow>
           isActive st' \<and> length (bracket st') = 1"
    and "interactionCreate shuffle fetched i st = Some (rs, st') \<Longrightarrow>
           isActive st' \<and> length (bracket st') = 1 \<and> (\<forall>w. TournamentWon w \<notin> set rs)"
proof -
  from assms(2) have ne: "bracket st \<noteq> []" by auto
  show "isActive (startTournament req channel_ok sent st) 
         \<and> length (bracket (startTournament req channel_ok sent st)) = 1"
    using assms by (simp add: startTournament_def)
  show "isActive st' \<and> length (bracket st') = 1"
    if "messageReactionAdd shuffle fetched r st = Some (rs, st')"
    using that assms ne
    by (auto simp: messageReactionAdd_def updateTournamentPost_nonempty split: if_splits)
  show "isActive st' \<and> length (bracket st') = 1 \<and> (\<forall>w. TournamentWon w \<notin> set rs)"
    if "interactionCreate shuffle fetched i st = Some (rs, st')"
  proof -
    have l: "length (fst (findMatch (username (winner_user i)) (bracket st))) = 1"
      using assms(2) by (simp add: findMatch_length)
    then have ne': "fst (findMatch (username (winner_user i)) (bracket st)) \<noteq> []" by auto
    show ?thesis
      using that assms l ne' findMatch_reply[of "username (winner_user i)" "bracket st"]
      by (auto simp: interactionCreate_def Let_def advance_def updateTournamentPost_nonempty
               split: if_splits prod.splits option.splits)
  qed
qed

section \<open>The names in the bracket of a tournament in progress\<close>








lemma findMatch_nonempty: "b \<noteq> [] \<Longrightarrow> fst (findMatch w b) \<noteq> []"
  using findMatch_length[of w b] by (metis length_0_conv)









lemma findMatch_v1_nonempty: "b \<noteq> [] \<Longrightarrow> fst (findMatch_v1 w b) \<noteq> []"
  by (simp add: findMatch_v1_fst findMatch_nonempty)






section \<open>A tournament of two, run from the initial state\<close>

lemmas ex_defs = alice_def bob_def carol_def dave_def joins_def joins_v1_def declares_def
  ex_request_def ex_state_def

lemma id_permutes: "\<forall>ps. mset (id ps) = mset (ps :: player list)"
  by simp

lemma ex_start: "startTournament ex_request True (Some ''m1'') initialState = ex_state True [] []"
  by (simp add: startTournament_def ex_defs initialState_def)

lemma ex_start_v1: "startTournament_v1 ex_request True (Some ''m1'') initialState = ex_state True [] []"
  by (simp add: startTournament_v1_def ex_defs initialState_def)

lemma ex_join1:
  "messageReactionAdd id True (joins alice) (ex_state True [] [])
     = Some ([LoggedJoined ''alice''], ex_state True [alice] [])"
  by code_simp

lemma ex_join2:
  "messageReactionAdd id True (joins bob) (ex_state True [alice] [])
     = Some ([LoggedJoined ''bob''],
         ex_state True [alice, bob] [\<lparr>matchId = 1, p1 = ''alice'', p2 = ''bob'', winner = None\<rparr>])"
  by code_simp

lemma ex_join1_v1:
  "messageReactionAdd_v1 id True (joins_v1 alice) (ex_state True [] [])
     = Some ([LoggedJoined ''alice''], ex_state True [alice] [])"
  by code_simp

lemma ex_join2_v1:
  "messageReactionAdd_v1 id True (joins_v1 bob) (ex_state True [alice] [])
     = Some ([LoggedJoined ''bob''],
         ex_state True [alice, bob] [\<lparr>matchId = 1, p1 = ''alice'', p2 = ''bob'', winner = None\<rparr>])"
  by code_simp

lemma ex_join1_v2:
  "messageReactionAdd_v2 id True (joins alice) (ex_state True [] [])
     = Some ([LoggedJoined ''alice''], ex_state True [alice] [])"
  by code_simp

lemma ex_join2_v2:
  "messageReactionAdd_v2 id True (joins bob) (ex_state True [alice] [])
     = Some ([LoggedJoined ''bob''],
         ex_state True [alice, bob] [\<lparr>matchId = 1, p1 = ''alice'', p2 = ''bob'', winner = None\<rparr>])"
  by code_simp

lemma ex_declare:
  "interactionCreate id True (declares alice)
       (ex_state True [alice, bob] [\<lparr>matchId = 1, p1 = ''alice'', p2 = ''bob'', winner = None\<rparr>])
     = Some ([Advanced ''alice''],
         ex_state True [alice, bob] [\<lparr>matchId = 1, p1 = ''alice'', p2 = ''bob'', winner = Some ''alice''\<rparr>])"
  by code_simp

lemma ex_declare_v1:
  "interactionCreate_v1 id True (declares alice)
       (ex_state True [alice, bob] [\<lparr>matchId = 1, p1 = ''alice'', p2 = ''bob'', winner = None\<rparr>])
     = Some ([AdvancedAgainst ''alice'' ''bob'', TournamentWon ''alice''],
         ex_state False [alice, bob] [\<lparr>matchId = 1, p1 = ''alice'', p2 = ''CHAMPION'', winner = Some ''alice''\<rparr>])"
  by code_simp

lemma ex_declare_v2:
  "interactionCreate_v2 id True (declares alice)
       (ex_state True [alice, bob] [\<lparr>matchId = 1, p1 = ''alice'', p2 = ''bob'', winner = None\<rparr>])
     = Some ([Advanced ''alice'', TournamentWon ''alice''],
         ex_state False [alice, bob] [\<lparr>matchId = 1, p1 = ''alice'', p2 = ''CHAMPION'', winner = Some ''alice''\<rparr>])"
  by code_simp

lemma ex_stuck:
  "interactionCreate id True (declares bob)
       (ex_state True [alice, bob] [\<lparr>matchId = 1, p1 = ''alice'', p2 = ''bob'', winner = Some ''alice''\<rparr>])
     = Some ([NoActiveMatch ''bob''],
         ex_state True [alice, bob] [\<lparr>matchId = 1, p1 = ''alice'', p2 = ''bob'', winner = Some ''alice''\<rparr>])"
  by code_simp

lemma ex_reachable:
  "reachable (ex_state True [alice, bob]
     [\<lparr>matchId = 1, p1 = ''alice'', p2 = ''bob'', winner = Some ''alice''\<rparr>])"
proof -
  have "reachable (ex_state True [] [])"
    using reachable_start[OF reachable_init, of ex_request True "Some ''m1''"]
    by (simp only: ex_start)
  from reachable_join[OF this id_permutes ex_join1]
  have "reachable (ex_state True [alice] [])" .
  from reachable_join[OF this id_permutes ex_join2]
  have "reachable (ex_state True [alice, bob]
     [\<lparr>matchId = 1, p1 = ''alice'', p2 = ''bob'', winner = None\<rparr>])" .
  from reachable_command[OF this id_permutes ex_declare] show ?thesis .
qed

lemma ex_reachable_v1:
  "reachable_v1 (ex_state False [alice, bob]
     [\<lparr>matchId = 1, p1 = ''alice'', p2 = ''CHAMPION'', winner = Some ''alice''\<rparr>])"
proof -
  have "reachable_v1 (ex_state True [] [])"
    using reachable_v1_start[OF reachable_v1_init, of ex_request True "Some ''m1''"]
    by (simp only: ex_start_v1)
  from reachable_v1_join[OF this id_permutes ex_join1_v1]
  have "reachable_v1 (ex_state True [alice] [])" .
  from reachable_v1_join[OF this id_permutes ex_join2_v1]
  have "reachable_v1 (ex_state True [alice, bob]
     [\<lparr>matchId = 1, p1 = ''alice'', p2 = ''bob'', winner = None\<rparr>])" .
  from reachable_v1_command[OF this id_permutes ex_declare_v1] show ?thesis .
qed

lemma ex_reachable_v2:
  "reachable_v2 (ex_state False [alice, bob]
     [\<lparr>matchId = 1, p1 = ''alice'', p2 = ''CHAMPION'', winner = Some ''alice''\<rparr>])"
proof -
  have "reachable_v2 (ex_state True [] [])"
    using reachable_v2_start[OF reachable_v2_init, of ex_request True "Some ''m1''"]
    by (simp only: ex_start)
  from reachable_v2_join[OF this id_permutes ex_join1_v2]
  have "reachable_v2 (ex_state True [alice] [])" .
  from reachable_v2_join[OF this id_permutes ex_join2_v2]
  have "reachable_v2 (ex_state True [alice, bob]
     [\<lparr>matchId = 1, p1 = ''alice'', p2 = ''bob'', winner = None\<rparr>])" .
  from reachable_v2_command[OF this id_permutes ex_declare_v2] show ?thesis .
qed

text \<open>
  A bracket of four is reachable in \<^verbatim>\<open>src/index.js\<close> too: the bracket is generated by
  \<^verbatim>\<open>updateTournamentPost\<close>, after its two fetches, so when these fail at the joins of the
  second and third participant the first round is generated at the fourth.
\<close>

lemma ex_four_reachable:
  "reachable (ex_state True [alice, bob, carol, dave]
     [\<lparr>matchId = 1, p1 = ''alice'', p2 = ''dave'', winner = Some ''alice''\<rparr>,
      \<lparr>matchId = 2, p1 = ''bob'', p2 = ''carol'', winner = None\<rparr>])"
proof -
  have "reachable (ex_state True [] [])"
    using reachable_start[OF reachable_init, of ex_request True "Some ''m1''"]
    by (simp only: ex_start)
  from reachable_join[OF this id_permutes ex_join1]
  have 1: "reachable (ex_state True [alice] [])" .
  have "messageReactionAdd id False (joins bob) (ex_state True [alice] [])
      = Some ([LoggedJoined ''bob''], ex_state True [alice, bob] [])"
    by code_simp
  from reachable_join[OF 1 id_permutes this]
  have 2: "reachable (ex_state True [alice, bob] [])" .
  have "messageReactionAdd id False (joins carol) (ex_state True [alice, bob] [])
      = Some ([LoggedJoined ''carol''], ex_state True [alice, bob, carol] [])"
    by code_simp
  from reachable_join[OF 2 id_permutes this]
  have 3: "reachable (ex_state True [alice, bob, carol] [])" .
  have "messageReactionAdd id True (joins dave) (ex_state True [alice, bob, carol] [])
      = Some ([LoggedJoined ''dave''], ex_state True [alice, bob, carol, dave]
          [\<lparr>matchId = 1, p1 = ''alice'', p2 = ''dave'', winner = None\<rparr>,
           \<lparr>matchId = 2, p1 = ''bob'', p2 = ''carol'', winner = None\<rparr>])"
    by code_simp
  from reachable_join[OF 3 id_permutes this]
  have 4: "reachable (ex_state True [alice, bob, carol, dave]
          [\<lparr>matchId = 1, p1 = ''alice'', p2 = ''dave'', winner = None\<rparr>,
           \<lparr>matchId = 2, p1 = ''bob'', p2 = ''carol'', winner = None\<rparr>])" .
  have "interactionCreate id True (declares alice)
       (ex_state True [alice, bob, carol, dave]
          [\<lparr>matchId = 1, p1 = ''alice'', p2 = ''dave'', winner = None\<rparr>,
           \<lparr>matchId = 2, p1 = ''bob'', p2 = ''carol'', winner = None\<rparr>])
      = Some ([Advanced ''alice''], ex_state True [alice, bob, carol, dave]
          [\<lparr>matchId = 1, p1 = ''alice'', p2 = ''dave'', winner = Some ''alice''\<rparr>,
           \<lparr>matchId = 2, p1 = ''bob'', p2 = ''carol'', winner = None\<rparr>])"
    by code_simp
  from reachable_command[OF 4 id_permutes this] show ?thesis .
qed

lemma ex_round_v1:
  "interactionCreate_v1 id True (declares bob)
       (ex_state True [alice, bob, carol, dave]
          [\<lparr>matchId = 1, p1 = ''alice'', p2 = ''dave'', winner = Some ''alice''\<rparr>,
           \<lparr>matchId = 2, p1 = ''bob'', p2 = ''carol'', winner = None\<rparr>])
     = Some ([AdvancedAgainst ''bob'' ''carol'', RoundComplete 1],
         ex_state True [alice, bob, carol, dave]
           [\<lparr>matchId = 1, p1 = ''alice'', p2 = ''bob'', winner = None\<rparr>])"
  by code_simp

section \<open>The second revision of \<^verbatim>\<open>part_001\<close> plays a tournament to its end\<close>

text \<open>
  On a round in play a declaration of a valid winner is accepted and resolves one match;
  the round either goes on, or ends and gives way to a round of half as many matches,
  or, when it was a single match, ends the tournament with its winner as champion.
\<close>

lemma nextPowerOfTwo_power: "nextPowerOfTwo (2 ^ j) = Some (2 ^ j)"
proof -
  obtain k where k: "nextPowerOfTwo (2 ^ j) = Some (2 ^ k)" "(2::nat) ^ j \<le> 2 ^ k"
      "\<forall>i. (2::nat) ^ j \<le> 2 ^ i \<longrightarrow> k \<le> i"
    using nextPowerOfTwo_returns[of "2 ^ j"] by blast
  from k(3) have "k \<le> j" by simp
  moreover from k(2) have "j \<le> k" by simp
  ultimately show ?thesis using k(1) by simp
qed

lemma open_count_update:
  assumes "k < length b" "winner (b ! k) = None" "winner m' \<noteq> None"
  shows "length (filter (\<lambda>m. winner m = None) (b[k := m'])) + 1
       = length (filter (\<lambda>m. winner m = None) b)"
  using assms
proof (induction b arbitrary: k)
  case Nil
  then show ?case by simp
next
  case (Cons a b)
  then show ?case by (cases k) auto
qed

lemma realNames_update:
  assumes "k < length b" "p1 m' = p1 (b ! k)" "p2 m' = p2 (b ! k)"
  shows "realNames (b[k := m']) = realNames b"
proof -
  have "map (\<lambda>m. [p1 m, p2 m]) (b[k := m']) = map (\<lambda>m. [p1 m, p2 m]) b"
    using assms by (simp add: map_update list_update_same_conv)
  then show ?thesis by (simp add: realNames_def)
qed

lemma distinct_choice:
  assumes "distinct (realNames b)"
    and "\<forall>m \<in> set b. (f m = p1 m \<or> f m = p2 m) \<and> f m \<noteq> ''BYE''"
  shows "distinct (map f b) \<and> set (map f b) \<subseteq> set (realNames b)"
  using assms
proof (induction b)
  case Nil
  then show ?case by simp
next
  case (Cons m ms)
  have split: "realNames (m # ms) = filter (\<lambda>x. x \<noteq> ''BYE'') [p1 m, p2 m] @ realNames ms"
    by (simp add: realNames_def)
  with Cons.prems(1) have d: "distinct (realNames ms)"
    and disj: "set (filter (\<lambda>x. x \<noteq> ''BYE'') [p1 m, p2 m]) \<inter> set (realNames ms) = {}"
    by auto
  from Cons.IH[OF d] Cons.prems(2)
  have ih: "distinct (map f ms)" "set (map f ms) \<subseteq> set (realNames ms)" by auto
  from Cons.prems(2) have fm: "f m \<in> set (filter (\<lambda>x. x \<noteq> ''BYE'') [p1 m, p2 m])" by auto
  with disj ih(2) have "f m \<notin> set (map f ms)" by blast
  with ih fm split show ?case by auto
qed

lemma slots_concat:
  "mset (concat (map (\<lambda>m. [p1 m, p2 m]) b)) = mset (map p1 b) + mset (map p2 b)"
  by (induction b) auto

lemma realNames_mset:
  "mset (realNames b) = filter_mset (\<lambda>x. x \<noteq> ''BYE'') (mset (map p1 b) + mset (map p2 b))"
  unfolding realNames_def by (simp only: mset_filter slots_concat)

lemma seated_names:
  assumes "list_all (seated names) b"
  shows "set (realNames b) \<subseteq> names"
  using assms by (induction b) (auto simp: realNames_def seated_def)

lemma winnersOf_complete:
  assumes "list_all (seated (username ` set ps)) b" "allComplete b"
  shows "map username (winnersOf ps b) = map (the \<circ> winner) b"
  using assms
proof (induction b)
  case Nil
  then show ?case by (simp add: winnersOf_def)
next
  case (Cons m ms)
  from Cons.prems(2) obtain w where w: "winner m = Some w" by (auto simp: allComplete_def)
  with Cons.prems(1) have "w \<in> username ` set ps" by (auto simp: seated_def)
  then have "find (\<lambda>p. Some (username p) = Some w) ps \<noteq> None"
    by (auto simp: find_None_iff)
  then obtain p where p: "find (\<lambda>p. Some (username p) = Some w) ps = Some p" by blast
  then have "username p = w" by (auto simp: find_Some_iff)
  moreover from Cons have "map username (winnersOf ps ms) = map (the \<circ> winner) ms"
    by (simp add: allComplete_def)
  ultimately show ?case using w p by (simp add: winnersOf_def)
qed

lemma complete_winners:
  assumes "list_all (seated names) b" "allComplete b" "distinct (realNames b)" "''BYE'' \<notin> names"
  shows "distinct (map (the \<circ> winner) b)" "set (map (the \<circ> winner) b) \<subseteq> names"
proof -
  have "\<forall>m \<in> set b. ((the \<circ> winner) m = p1 m \<or> (the \<circ> winner) m = p2 m)
      \<and> (the \<circ> winner) m \<noteq> ''BYE''"
  proof
    fix m assume m: "m \<in> set b"
    with assms(2) obtain w where w: "winner m = Some w"
      by (auto simp: allComplete_def list_all_iff)
    from m assms(1) have s: "seated names m" by (simp add: list_all_iff)
    with w assms(4) have "(w = p1 m \<or> w = p2 m) \<and> w \<noteq> ''BYE''"
      by (auto simp: seated_def)
    with w show "((the \<circ> winner) m = p1 m \<or> (the \<circ> winner) m = p2 m)
      \<and> (the \<circ> winner) m \<noteq> ''BYE''"
      by simp
  qed
  from distinct_choice[OF assms(3) this] seated_names[OF assms(1)]
  show "distinct (map (the \<circ> winner) b)" "set (map (the \<circ> winner) b) \<subseteq> names"
    by blast+
qed

text \<open>A round generated from a padded list of even length whose first half holds
  players only.\<close>

lemma fresh_round:
  assumes len: "length sp = 2 * h" and h: "0 < h"
    and d: "distinct (filter (\<lambda>x. x \<noteq> ''BYE'') (map username sp))"
    and n: "username ` set sp \<subseteq> names \<union> {''BYE''}"
    and first: "\<forall>i<h. username (sp ! i) \<in> names"
  shows "length (map (mk_match sp) [0..<h]) = h"
    and "\<not> allComplete (map (mk_match sp) [0..<h])"
    and "distinct (realNames (map (mk_match sp) [0..<h]))"
    and "list_all (seated names) (map (mk_match sp) [0..<h])"
    and "todo (map (mk_match sp) [0..<h]) = 2 * h - 1"
proof -
  let ?nb = "map (mk_match sp) [0..<h]"
  show "length ?nb = h" by simp
  from h show "\<not> allComplete ?nb"
    by (auto simp: allComplete_def list_all_iff intro!: bexI[of _ 0])
  have m: "mset (map p1 ?nb) + mset (map p2 ?nb) = mset (map username sp)"
    using round_props(2)[of sp h "mk_match sp", OF len mk_match_sel(1-3)] .
  have "mset (realNames ?nb) = filter_mset (\<lambda>x. x \<noteq> ''BYE'') (mset (map username sp))"
    by (simp only: realNames_mset m)
  also have "\<dots> = mset (filter (\<lambda>x. x \<noteq> ''BYE'') (map username sp))" by simp
  finally have "mset (realNames ?nb) = mset (filter (\<lambda>x. x \<noteq> ''BYE'') (map username sp))" .
  with d show "distinct (realNames ?nb)" by (metis mset_eq_imp_distinct_iff)
  have "seated names (mk_match sp i)" if "i < h" for i
  proof -
    from that len have "length sp - 1 - i < length sp" by linarith
    then have "sp ! (length sp - 1 - i) \<in> set sp" by simp
    with n first that show ?thesis by (auto simp: seated_def)
  qed
  then show "list_all (seated names) ?nb" by (simp add: list_all_iff)
  show "todo ?nb = 2 * h - 1" by (simp add: todo_def)
qed

lemma fair_bracket_nonempty: "fair st \<Longrightarrow> bracket st \<noteq> []"
  by (auto simp: fair_def)

lemma seated_open:
  assumes "seated names m" "[] \<notin> names" "isOpenMatchOf w m"
  shows "winner m = None \<and> (p1 m = w \<or> p2 m = w)"
  using assms by (auto simp: seated_def isOpenMatchOf_def falsy_def)

lemma list_all_update:
  "list_all P b \<Longrightarrow> P m' \<Longrightarrow> list_all P (b[k := m'])"
  by (metis (full_types) insert_iff list_all_iff set_update_subset_insert subsetD)

lemma interactionCreate_v2_found:
  assumes "isChatInputCommand i" "commandName i = ''updatewinner''" "isAdmin i"
    and "isActive st" "2 \<le> length (participants st)" "bracket st \<noteq> []"
    and "findMatch (username (winner_user i)) (bracket st) = (b', Some rep)"
    and "advance_v2 shuffle (st\<lparr>bracket := b'\<rparr>) = Some (fs, st2)"
    and "bracket st2 \<noteq> []"
  shows "interactionCreate_v2 shuffle fetched i st = Some (rep # fs, st2)"
  using assms by (simp add: interactionCreate_v2_def updateTournamentPost_nonempty)

lemma advance_v2_incomplete:
  "\<not> allComplete (bracket st) \<Longrightarrow> advance_v2 shuffle st = Some ([], st)"
  by (simp add: advance_v2_def)

lemma advance_v2_champion:
  assumes "allComplete (bracket st)" "winnersOf (participants st) (bracket st) = [p]"
  shows "advance_v2 shuffle st = Some ([TournamentWon (username p)],
           st\<lparr>bracket := [\<lparr>matchId = 1, p1 = username p, p2 = ''CHAMPION'',
                              winner = Some (username p)\<rparr>],
              isActive := False\<rparr>)"
  using assms by (simp add: advance_v2_def Let_def)

lemma advance_v2_next:
  assumes "allComplete (bracket st)" "1 < length (winnersOf (participants st) (bracket st))"
    and "generatePairings_v2 shuffle (winnersOf (participants st) (bracket st)) = Some nb"
  shows "advance_v2 shuffle st = Some ([RoundComplete (length nb)], st\<lparr>bracket := nb\<rparr>)"
  using assms by (simp add: advance_v2_def Let_def)

lemma generatePairings_v2_power:
  assumes "length ps = 2 * h" "0 < h" "\<exists>j. 2 * h = 2 ^ j" "\<forall>ps. mset (shuffle ps) = mset ps"
  shows "generatePairings_v2 shuffle ps = Some (map (mk_match (shuffle ps)) [0..<h])"
proof -
  have len: "length (shuffle ps) = 2 * h" using assms(1,4) by (metis size_mset)
  from assms(3) obtain j where j: "2 * h = 2 ^ j" by blast
  have "nextPowerOfTwo (length (shuffle ps)) = Some (2 * h)"
    using nextPowerOfTwo_power[of j] len j by simp
  from generatePairings_closed[of shuffle ps "2 * h", OF this] len
  have "generatePairings shuffle ps = Some (map (mk_match (shuffle ps)) [0..<h])" by simp
  with assms(1,2) show ?thesis by (simp add: generatePairings_v2_def)
qed

lemma step_v2:
  assumes fair: "fair st" and valid: "validWinner w st"
    and perm: "\<forall>ps. mset (shuffle ps) = mset ps"
    and cmd: "isChatInputCommand i" "commandName i = ''updatewinner''" "isAdmin i"
      "username (winner_user i) = w"
  shows "\<exists>rs st'. interactionCreate_v2 shuffle fetched i st = Some (rs, st')
     \<and> participants st' = participants st
     \<and> todo (bracket st') + 1 = todo (bracket st)
     \<and> w \<noteq> []
     \<and> ((fair st' \<and> length (bracket st') = length (bracket st)
            \<and> length (filter endsRound rs) = 0)
       \<or> (fair st' \<and> 2 * length (bracket st') = length (bracket st)
            \<and> length (filter endsRound rs) = 1
            \<and> RoundComplete (length (bracket st')) \<in> set rs)
       \<or> (\<not> isActive st' \<and> length (bracket st) = 1
            \<and> length (filter endsRound rs) = 1 \<and> TournamentWon w \<in> set rs
            \<and> bracket st' = [\<lparr>matchId = 1, p1 = w, p2 = ''CHAMPION'', winner = Some w\<rparr>]))"
proof -
  let ?b = "bracket st"
  let ?names = "username ` set (participants st)"
  from fair have act: "isActive st" and n2: "2 \<le> length (participants st)"
    and ne: "?b \<noteq> []" and d: "distinct (realNames ?b)"
    and bye: "''BYE'' \<notin> ?names" and emp: "[] \<notin> ?names"
    and seat: "list_all (seated ?names) ?b"
    by (auto simp: fair_def)
  from fair obtain j where j: "length ?b = 2 ^ j" by (auto simp: fair_def)
  from valid have wbye: "w \<noteq> ''BYE''" and ex: "list_ex (isOpenMatchOf w) ?b"
    by (simp_all add: validWinner_def)
  from findMatch_first[of w ?b] ex obtain k where k: "k < length ?b" "isOpenMatchOf w (?b ! k)"
      "fst (findMatch w ?b) = ?b[k := (?b ! k)\<lparr>winner := Some w\<rparr>]"
      "snd (findMatch w ?b) \<noteq> None"
    by blast
  let ?m' = "(?b ! k)\<lparr>winner := Some w\<rparr>"
  let ?b' = "?b[k := ?m']"
  from k(4) obtain rep where rep: "snd (findMatch w ?b) = Some rep" by blast
  from findMatch_reply[OF rep] have nr: "\<not> endsRound rep" by auto
  from rep k(3) have fm: "findMatch (username (winner_user i)) ?b = (?b', Some rep)"
    by (simp add: cmd(4) prod_eq_iff)
  from seat k(1) have sk: "seated ?names (?b ! k)" by (simp add: list_all_iff)
  from seated_open[OF sk emp k(2)] have open_k: "winner (?b ! k) = None"
    and wk: "p1 (?b ! k) = w \<or> p2 (?b ! k) = w" by blast+
  from sk wk wbye have sm': "seated ?names ?m'" by (auto simp: seated_def)
  have wne: "w \<noteq> []"
  proof -
    from sk wk wbye have "w \<in> ?names" by (auto simp: seated_def)
    with emp show ?thesis by blast
  qed
  have seat': "list_all (seated ?names) ?b'" by (rule list_all_update[OF seat sm'])
  have rn': "realNames ?b' = realNames ?b" by (rule realNames_update[OF k(1)]) simp_all
  have len': "length ?b' = length ?b" by simp
  have ne': "?b' \<noteq> []" using ne by simp
  have oc: "length (filter (\<lambda>m. winner m = None) ?b') + 1
      = length (filter (\<lambda>m. winner m = None) ?b)"
    by (rule open_count_update[OF k(1) open_k]) simp
  let ?st1 = "st\<lparr>bracket := ?b'\<rparr>"
  have pos: "0 < length ?b" using ne by simp
  show ?thesis
  proof (cases "allComplete ?b'")
    case False
    have adv: "advance_v2 shuffle ?st1 = Some ([], ?st1)"
      using False by (simp add: advance_v2_incomplete)
    have res: "interactionCreate_v2 shuffle fetched i st = Some ([rep], ?st1)"
      using interactionCreate_v2_found[OF cmd(1-3) act n2 ne fm adv] ne' by simp
    have f1: "fair ?st1"
      using False act n2 j d bye emp seat' rn' by (simp add: fair_def)
    have t: "todo (bracket ?st1) + 1 = todo ?b"
      using oc pos by (simp add: todo_def)
    from res f1 t nr wne show ?thesis by simp
  next
    case True
    then have noopen: "filter (\<lambda>m. winner m = None) ?b' = []"
      by (auto simp: allComplete_def list_all_iff filter_empty_conv)
    with oc have open1: "length (filter (\<lambda>m. winner m = None) ?b) = 1" by simp
    let ?rw = "winnersOf (participants ?st1) (bracket ?st1)"
    have un: "map username ?rw = map (the \<circ> winner) ?b'"
      using winnersOf_complete[OF seat' True] by simp
    then have lrw: "length ?rw = length ?b" by (metis length_map len')
    have dw: "distinct (map username ?rw)" "set (map username ?rw) \<subseteq> ?names"
      using complete_winners[OF seat' True _ bye] d rn' un by simp_all
    show ?thesis
    proof (cases j)
      case 0
      with j have l1: "length ?b = 1" by simp
      with k(1) have k0: "k = 0" by simp
      from l1 lrw obtain p where p: "?rw = [p]" by (cases ?rw) auto
      with un l1 k0 have up: "username p = w"
        by (cases ?b) auto
      from advance_v2_champion[of ?st1 p shuffle] True p up
      have adv: "advance_v2 shuffle ?st1 = Some ([TournamentWon w],
           ?st1\<lparr>bracket := [\<lparr>matchId = 1, p1 = w, p2 = ''CHAMPION'', winner = Some w\<rparr>],
              isActive := False\<rparr>)"
        by simp
      from interactionCreate_v2_found[OF cmd(1-3) act n2 ne fm adv]
      have res: "interactionCreate_v2 shuffle fetched i st = Some ([rep, TournamentWon w],
           ?st1\<lparr>bracket := [\<lparr>matchId = 1, p1 = w, p2 = ''CHAMPION'', winner = Some w\<rparr>],
              isActive := False\<rparr>)"
        by simp
      have t: "todo ?b = 1" using open1 l1 by (simp add: todo_def)
      from res l1 t nr wne show ?thesis by (simp add: todo_def)
    next
      case (Suc j')
      let ?h = "2 ^ j' :: nat"
      from j Suc have l2: "length ?rw = 2 * ?h" using lrw by simp
      have hpos: "0 < ?h" by simp
      have "\<exists>jj. 2 * ?h = 2 ^ jj" by (intro exI[of _ "Suc j'"]) simp
      from generatePairings_v2_power[OF l2 hpos this perm]
      have gp: "generatePairings_v2 shuffle ?rw = Some (map (mk_match (shuffle ?rw)) [0..<?h])" .
      let ?sp = "shuffle ?rw"
      let ?nb = "map (mk_match ?sp) [0..<?h]"
      have msp: "mset ?sp = mset ?rw" using perm by blast
      then have lsp: "length ?sp = 2 * ?h" using l2 by (metis size_mset)
      have "mset (map username ?sp) = mset (map username ?rw)"
        using msp by (metis mset_map)
      then have dsp: "distinct (map username ?sp)"
        and ssp: "username ` set ?sp \<subseteq> ?names"
        using dw by (metis mset_eq_imp_distinct_iff, metis set_map mset_eq_setD)
      have d1: "distinct (filter (\<lambda>x. x \<noteq> ''BYE'') (map username ?sp))"
        using dsp by simp
      have n1: "username ` set ?sp \<subseteq> ?names \<union> {''BYE''}" using ssp by blast
      have f1: "\<forall>i<?h. username (?sp ! i) \<in> ?names"
      proof (intro allI impI)
        fix i assume "i < ?h"
        with lsp have "i < length ?sp" by simp
        then have "?sp ! i \<in> set ?sp" by simp
        with ssp show "username (?sp ! i) \<in> ?names" by blast
      qed
      note fr = fresh_round[OF lsp hpos d1 n1 f1]
      have "(1::nat) \<le> 2 ^ j'" by simp
      then have "(1::nat) < 2 * 2 ^ j'" by linarith
      with l2 have "1 < length ?rw" by simp
      from advance_v2_next[OF _ this gp] True
      have adv: "advance_v2 shuffle ?st1 = Some ([RoundComplete (length ?nb)], ?st1\<lparr>bracket := ?nb\<rparr>)"
        by simp
      have nbne: "bracket (?st1\<lparr>bracket := ?nb\<rparr>) \<noteq> []" using fr(1) by auto
      from interactionCreate_v2_found[OF cmd(1-3) act n2 ne fm adv nbne]
      have res: "interactionCreate_v2 shuffle fetched i st
          = Some ([rep, RoundComplete (length ?nb)], ?st1\<lparr>bracket := ?nb\<rparr>)" .
      have f2: "fair (?st1\<lparr>bracket := ?nb\<rparr>)"
        unfolding fair_def using act n2 bye emp fr(1-4)
        by (auto intro: exI[of _ j'])
      have t: "todo ?nb + 1 = todo ?b"
        using fr(5) open1 j Suc by (simp add: todo_def)
      have l: "2 * length ?nb = length ?b" using j Suc by simp
      from res f2 t l nr wne show ?thesis by simp
    qed
  qed
qed

lemma fair_progress:
  assumes "fair st"
  shows "\<exists>w. validWinner w st"
proof -
  let ?names = "username ` set (participants st)"
  from assms have "\<not> allComplete (bracket st)" and bye: "''BYE'' \<notin> ?names"
    and seat: "list_all (seated ?names) (bracket st)"
    by (auto simp: fair_def)
  then obtain m where m: "m \<in> set (bracket st)" "winner m = None"
    by (auto simp: allComplete_def list_all_iff)
  with seat have "p1 m \<in> ?names" by (auto simp: list_all_iff seated_def)
  with bye have "p1 m \<noteq> ''BYE''" by metis
  moreover have "list_ex (isOpenMatchOf (p1 m)) (bracket st)"
  proof -
    from m(2) have "isOpenMatchOf (p1 m) m" by (simp add: isOpenMatchOf_def falsy_def)
    with m(1) show ?thesis unfolding list_ex_iff by (rule bexI[rotated])
  qed
  ultimately show ?thesis by (auto simp: validWinner_def)
qed

lemma first_round_fair:
  assumes n2: "2 \<le> length ps" and d: "distinct (map username ps)"
    and bye: "''BYE'' \<notin> username ` set ps" and emp: "[] \<notin> username ` set ps"
    and perm: "\<forall>ps. mset (shuffle ps) = mset ps"
    and K: "length ps \<le> 2 ^ K" "\<forall>j. length ps \<le> 2 ^ j \<longrightarrow> K \<le> j"
    and gp: "generatePairings_v2 shuffle ps = Some b"
    and st: "isActive st" "participants st = ps" "bracket st = b"
  shows "fair st \<and> 2 * length b = 2 ^ K \<and> todo b = 2 ^ K - 1"
proof -
  let ?n = "length ps"
  let ?names = "username ` set ps"
  obtain k where k: "nextPowerOfTwo ?n = Some (2 ^ k)" "?n \<le> 2 ^ k"
      "\<forall>j. ?n \<le> 2 ^ j \<longrightarrow> k \<le> j"
    using nextPowerOfTwo_returns[of ?n] by blast
  from k(2,3) K have kK: "k = K" by (meson le_antisym)
  from n2 K(1) have "K \<noteq> 0" by (cases K) auto
  then obtain K' where K': "K = Suc K'" by (cases K) auto
  let ?h = "2 ^ K' :: nat"
  have hn: "?h < ?n"
  proof (rule ccontr)
    assume "\<not> ?h < ?n"
    then have "?n \<le> 2 ^ K'" by simp
    with K(2) have "K \<le> K'" by blast
    with K' show False by simp
  qed
  have lsh: "length (shuffle ps) = ?n" using perm by (metis size_mset)
  let ?sp = "shuffle ps @ replicate (2 ^ K - ?n) BYE"
  have lsp: "length ?sp = 2 * ?h" using K(1) K' lsh by simp
  have half: "(?n + (2 ^ K - ?n) + 1) div 2 = ?h" using K(1) K' by simp
  have "generatePairings shuffle ps = Some (map (mk_match ?sp) [0..<?h])"
    using generatePairings_closed[of shuffle ps "2 ^ K"] k(1) kK lsh half by simp
  with gp n2 have b: "b = map (mk_match ?sp) [0..<?h]" by (simp add: generatePairings_v2_def)
  have mu: "mset (map username (shuffle ps)) = mset (map username ps)"
    using perm by (metis mset_map)
  then have dsh: "distinct (map username (shuffle ps))" using d by (metis mset_eq_imp_distinct_iff)
  have ssh: "username ` set (shuffle ps) = ?names" using mu by (metis set_map mset_eq_setD)
  have "\<forall>x \<in> set (map username (shuffle ps)). x \<noteq> ''BYE''"
    using bye ssh by (metis set_map)
  then have nb: "filter (\<lambda>x. x \<noteq> ''BYE'') (map username (shuffle ps)) = map username (shuffle ps)"
    by (simp only: filter_id_conv)
  have d1: "distinct (filter (\<lambda>x. x \<noteq> ''BYE'') (map username ?sp))"
    using dsh nb by simp
  have n1: "username ` set ?sp \<subseteq> ?names \<union> {''BYE''}" using ssh by auto
  have f1: "\<forall>i<?h. username (?sp ! i) \<in> ?names"
  proof (intro allI impI)
    fix i assume "i < ?h"
    with hn lsh have i: "i < length (shuffle ps)" by simp
    then have "?sp ! i = shuffle ps ! i" by (simp add: nth_append)
    moreover from i have "shuffle ps ! i \<in> set (shuffle ps)" by simp
    ultimately show "username (?sp ! i) \<in> ?names" using ssh by auto
  qed
  have hpos: "0 < ?h" by simp
  note fr = fresh_round[OF lsp hpos d1 n1 f1]
  have "fair st"
    unfolding fair_def using st n2 bye emp fr(1-4) b by (auto intro: exI[of _ K'])
  moreover have "2 * length b = 2 ^ K" using b K' by simp
  moreover have "todo b = 2 ^ K - 1" using fr(5) b K' by simp
  ultimately show ?thesis by blast
qed

lemma plays_v2_invariant:
  assumes "plays_v2 st0 d r st'" "fair st0" "length (bracket st0) = 2 ^ j"
  shows "d + todo (bracket st') = todo (bracket st0)
       \<and> ((fair st' \<and> (\<exists>j'. length (bracket st') = 2 ^ j' \<and> r + j' = j))
          \<or> (\<not> isActive st' \<and> r = j + 1
              \<and> (\<exists>w. w \<noteq> [] \<and> bracket st'
                    = [\<lparr>matchId = 1, p1 = w, p2 = ''CHAMPION'', winner = Some w\<rparr>])))"
  using assms
proof (induction rule: plays_v2.induct)
  case (plays_v2_start st)
  then show ?case by auto
next
  case (plays_v2_declare st d r st1 w shuffle i fetched rs st2)
  from plays_v2_declare.IH[OF plays_v2_declare.prems]
  have t: "d + todo (bracket st1) = todo (bracket st)"
    and alt: "(fair st1 \<and> (\<exists>j'. length (bracket st1) = 2 ^ j' \<and> r + j' = j))
          \<or> (\<not> isActive st1 \<and> r = j + 1
              \<and> (\<exists>w. w \<noteq> [] \<and> bracket st1
                    = [\<lparr>matchId = 1, p1 = w, p2 = ''CHAMPION'', winner = Some w\<rparr>]))"
    by blast+
  have "\<not> (\<exists>w'. w' \<noteq> [] \<and> bracket st1
          = [\<lparr>matchId = 1, p1 = w', p2 = ''CHAMPION'', winner = Some w'\<rparr>])"
    using plays_v2_declare.hyps(2)
    by (auto simp: validWinner_def isOpenMatchOf_def falsy_def)
  with alt obtain j' where f1: "fair st1" and j': "length (bracket st1) = 2 ^ j'" "r + j' = j"
    by blast
  from step_v2[OF f1 plays_v2_declare.hyps(2,3,4,5,6,7), of fetched] plays_v2_declare.hyps(8)
  have s: "todo (bracket st2) + 1 = todo (bracket st1)" "w \<noteq> []"
    "(fair st2 \<and> length (bracket st2) = length (bracket st1)
            \<and> length (filter endsRound rs) = 0)
       \<or> (fair st2 \<and> 2 * length (bracket st2) = length (bracket st1)
            \<and> length (filter endsRound rs) = 1)
       \<or> (\<not> isActive st2 \<and> length (bracket st1) = 1
            \<and> length (filter endsRound rs) = 1
            \<and> bracket st2 = [\<lparr>matchId = 1, p1 = w, p2 = ''CHAMPION'', winner = Some w\<rparr>])"
    by auto
  from s(1) t have t2: "d + 1 + todo (bracket st2) = todo (bracket st)" by simp
  from s(3) show ?case
  proof (elim disjE conjE)
    assume "fair st2" "length (bracket st2) = length (bracket st1)"
      "length (filter endsRound rs) = 0"
    with j' t2 show ?thesis by auto
  next
    assume a: "fair st2" "2 * length (bracket st2) = length (bracket st1)"
      "length (filter endsRound rs) = 1"
    from a(2) j'(1) have "j' \<noteq> 0" by (cases j') auto
    then obtain j'' where j'': "j' = Suc j''" by (cases j') auto
    with a(2) j'(1) have "length (bracket st2) = 2 ^ j''" by simp
    with a j'' j'(2) t2 show ?thesis by auto
  next
    assume a: "\<not> isActive st2" "length (bracket st1) = 1" "length (filter endsRound rs) = 1"
      "bracket st2 = [\<lparr>matchId = 1, p1 = w, p2 = ''CHAMPION'', winner = Some w\<rparr>]"
    from a(2) j'(1) have "j' = 0" by (cases j') auto
    with a j'(2) s(2) t2 show ?thesis by auto
  qed
qed

text \<open>
  Convergence. Let the first round be generated from \<open>n \<ge> 2\<close> participants with
  distinct, non-empty names other than \<^verbatim>\<open>BYE\<close>, and let \<open>2 ^ K\<close> be the least power of two
  that is at least \<open>n\<close>, so that \<open>K\<close> is the ceiling of the binary logarithm of \<open>n\<close>.
  Whatever valid winners are declared: the declarations made and those still to come
  add up to \<open>2 ^ K - 1\<close>, so no play is longer; while the tournament is active, fewer than
  \<open>K\<close> rounds have ended and a valid winner can be declared; and when it is over,
  exactly \<open>K\<close> rounds have ended and the bracket shows the one champion.
\<close>

lemma todo_champion:
  "todo [\<lparr>matchId = k, p1 = w, p2 = c, winner = Some w\<rparr>] = 0"
  by (simp add: todo_def)

theorem tournament_v2_converges:
  assumes n2: "2 \<le> length ps" and d: "distinct (map username ps)"
    and bye: "''BYE'' \<notin> username ` set ps" and emp: "[] \<notin> username ` set ps"
    and perm: "\<forall>ps. mset (shuffle ps) = mset ps"
    and K: "length ps \<le> 2 ^ K" "\<forall>j. length ps \<le> 2 ^ j \<longrightarrow> K \<le> j"
    and gp: "generatePairings_v2 shuffle ps = Some b"
    and st: "isActive st" "participants st = ps" "bracket st = b"
    and run: "plays_v2 st n r st'"
  shows "n + todo (bracket st') = 2 ^ K - 1"
    and "isActive st' \<Longrightarrow> r < K \<and> (\<exists>w. validWinner w st')"
    and "\<not> isActive st' \<Longrightarrow> r = K \<and> n = 2 ^ K - 1
           \<and> (\<exists>w. bracket st' = [\<lparr>matchId = 1, p1 = w, p2 = ''CHAMPION'', winner = Some w\<rparr>])"
proof -
  from first_round_fair[OF n2 d bye emp perm K gp st]
  have f0: "fair st" and l0: "2 * length b = 2 ^ K" and t0: "todo b = 2 ^ K - 1" by blast+
  from n2 K(1) have "K \<noteq> 0" by (cases K) auto
  then obtain K' where K': "K = Suc K'" by (cases K) auto
  with l0 st(3) have lb: "length (bracket st) = 2 ^ K'" by simp
  from plays_v2_invariant[OF run f0 lb] t0 st(3)
  have t: "n + todo (bracket st') = 2 ^ K - 1"
    and alt: "(fair st' \<and> (\<exists>j'. length (bracket st') = 2 ^ j' \<and> r + j' = K'))
          \<or> (\<not> isActive st' \<and> r = K' + 1
              \<and> (\<exists>w. w \<noteq> [] \<and> bracket st'
                    = [\<lparr>matchId = 1, p1 = w, p2 = ''CHAMPION'', winner = Some w\<rparr>]))"
    by simp_all
  show "n + todo (bracket st') = 2 ^ K - 1" by (rule t)
  show "r < K \<and> (\<exists>w. validWinner w st')" if "isActive st'"
  proof -
    from alt that have "fair st'" and "\<exists>j'. r + j' = K'" by auto
    with K' fair_progress[of st'] show ?thesis by auto
  qed
  show "r = K \<and> n = 2 ^ K - 1
           \<and> (\<exists>w. bracket st' = [\<lparr>matchId = 1, p1 = w, p2 = ''CHAMPION'', winner = Some w\<rparr>])"
    if "\<not> isActive st'"
  proof -
    from alt that have r: "r = K' + 1"
      and "\<exists>w. bracket st' = [\<lparr>matchId = 1, p1 = w, p2 = ''CHAMPION'', winner = Some w\<rparr>]"
      by (auto simp: fair_def)
    then obtain w where w: "bracket st' = [\<lparr>matchId = 1, p1 = w, p2 = ''CHAMPION'', winner = Some w\<rparr>]"
      by blast
    with t have "n = 2 ^ K - 1" by (simp add: todo_champion)
    with r K' w show ?thesis by simp
  qed
qed

text \<open>Three participants: three declarations, two rounds.\<close>

lemma ex_v2_round1a:
  "interactionCreate_v2 id True (declares alice)
     (ex_state True [alice, bob, carol]
        [\<lparr>matchId = 1, p1 = ''alice'', p2 = ''BYE'', winner = None\<rparr>,
         \<lparr>matchId = 2, p1 = ''bob'', p2 = ''carol'', winner = None\<rparr>])
   = Some ([AdvancedBye ''alice''],
       ex_state True [alice, bob, carol]
        [\<lparr>matchId = 1, p1 = ''alice'', p2 = ''BYE'', winner = Some ''alice''\<rparr>,
         \<lparr>matchId = 2, p1 = ''bob'', p2 = ''carol'', winner = None\<rparr>])"
  by code_simp

lemma ex_v2_round1b:
  "interactionCreate_v2 id True (declares bob)
     (ex_state True [alice, bob, carol]
        [\<lparr>matchId = 1, p1 = ''alice'', p2 = ''BYE'', winner = Some ''alice''\<rparr>,
         \<lparr>matchId = 2, p1 = ''bob'', p2 = ''carol'', winner = None\<rparr>])
   = Some ([Advanced ''bob'', RoundComplete 1],
       ex_state True [alice, bob, carol]
        [\<lparr>matchId = 1, p1 = ''alice'', p2 = ''bob'', winner = None\<rparr>])"
  by code_simp

lemma ex_v2_round2:
  "interactionCreate_v2 id True (declares bob)
     (ex_state True [alice, bob, carol]
        [\<lparr>matchId = 1, p1 = ''alice'', p2 = ''bob'', winner = None\<rparr>])
   = Some ([Advanced ''bob'', TournamentWon ''bob''],
       ex_state False [alice, bob, carol]
        [\<lparr>matchId = 1, p1 = ''bob'', p2 = ''CHAMPION'', winner = Some ''bob''\<rparr>])"
  by code_simp

lemma ex_v2_first_round:
  "generatePairings_v2 id [alice, bob, carol]
     = Some [\<lparr>matchId = 1, p1 = ''alice'', p2 = ''BYE'', winner = None\<rparr>,
             \<lparr>matchId = 2, p1 = ''bob'', p2 = ''carol'', winner = None\<rparr>]"
  by code_simp

lemma ex_v2_plays:
  "plays_v2
     (ex_state True [alice, bob, carol]
        [\<lparr>matchId = 1, p1 = ''alice'', p2 = ''BYE'', winner = None\<rparr>,
         \<lparr>matchId = 2, p1 = ''bob'', p2 = ''carol'', winner = None\<rparr>])
     3 2
     (ex_state False [alice, bob, carol]
        [\<lparr>matchId = 1, p1 = ''bob'', p2 = ''CHAMPION'', winner = Some ''bob''\<rparr>])"
proof -
  let ?s0 = "ex_state True [alice, bob, carol]
        [\<lparr>matchId = 1, p1 = ''alice'', p2 = ''BYE'', winner = None\<rparr>,
         \<lparr>matchId = 2, p1 = ''bob'', p2 = ''carol'', winner = None\<rparr>]"
  let ?s1 = "ex_state True [alice, bob, carol]
        [\<lparr>matchId = 1, p1 = ''alice'', p2 = ''BYE'', winner = Some ''alice''\<rparr>,
         \<lparr>matchId = 2, p1 = ''bob'', p2 = ''carol'', winner = None\<rparr>]"
  let ?s2 = "ex_state True [alice, bob, carol]
        [\<lparr>matchId = 1, p1 = ''alice'', p2 = ''bob'', winner = None\<rparr>]"
  have c: "isChatInputCommand (declares p)" "commandName (declares p) = ''updatewinner''"
    "isAdmin (declares p)" for p
    by (simp_all add: declares_def)
  have u: "username (winner_user (declares alice)) = ''alice''"
    "username (winner_user (declares bob)) = ''bob''"
    by (simp_all add: declares_def alice_def bob_def)
  have v0: "validWinner ''alice'' ?s0"
    by (simp add: validWinner_def ex_state_def isOpenMatchOf_def falsy_def)
  have v1: "validWinner ''bob'' ?s1"
    by (simp add: validWinner_def ex_state_def isOpenMatchOf_def falsy_def)
  have v2: "validWinner ''bob'' ?s2"
    by (simp add: validWinner_def ex_state_def isOpenMatchOf_def falsy_def)
  from plays_v2_declare[OF plays_v2_start v0 id_permutes c u(1) ex_v2_round1a]
  have "plays_v2 ?s0 1 0 ?s1" by simp
  from plays_v2_declare[OF this v1 id_permutes c u(2) ex_v2_round1b]
  have "plays_v2 ?s0 2 1 ?s2" by (simp add: numeral_2_eq_2)
  from plays_v2_declare[OF this v2 id_permutes c u(2) ex_v2_round2]
  show ?thesis by (simp add: numeral_2_eq_2 numeral_3_eq_3)
qed

lemma ex_v2_converges:
  "(2::nat) = 2 \<and> (3::nat) = 2 ^ 2 - 1
   \<and> (\<exists>w. bracket (ex_state False [alice, bob, carol]
        [\<lparr>matchId = 1, p1 = ''bob'', p2 = ''CHAMPION'', winner = Some ''bob''\<rparr>])
        = [\<lparr>matchId = 1, p1 = w, p2 = ''CHAMPION'', winner = Some w\<rparr>])"
proof -
  let ?ps = "[alice, bob, carol]"
  let ?s0 = "ex_state True [alice, bob, carol]
        [\<lparr>matchId = 1, p1 = ''alice'', p2 = ''BYE'', winner = None\<rparr>,
         \<lparr>matchId = 2, p1 = ''bob'', p2 = ''carol'', winner = None\<rparr>]"
  have n2: "2 \<le> length ?ps" by simp
  have d: "distinct (map username ?ps)" by (simp add: alice_def bob_def carol_def)
  have bye: "''BYE'' \<notin> username ` set ?ps" by (simp add: alice_def bob_def carol_def)
  have emp: "[] \<notin> username ` set ?ps" by (simp add: alice_def bob_def carol_def)
  have K1: "length ?ps \<le> 2 ^ 2" by simp
  have K2: "\<forall>j. length ?ps \<le> 2 ^ j \<longrightarrow> 2 \<le> j"
  proof (intro allI impI)
    fix j :: nat assume a: "length ?ps \<le> 2 ^ j"
    show "2 \<le> j"
    proof (rule ccontr)
      assume "\<not> 2 \<le> j"
      then have "j = 0 \<or> j = 1" by auto
      with a show False by auto
    qed
  qed
  have s: "isActive ?s0" "participants ?s0 = ?ps"
    "bracket ?s0 = [\<lparr>matchId = 1, p1 = ''alice'', p2 = ''BYE'', winner = None\<rparr>,
         \<lparr>matchId = 2, p1 = ''bob'', p2 = ''carol'', winner = None\<rparr>]"
    by (simp_all add: ex_state_def)
  have e: "\<not> isActive (ex_state False [alice, bob, carol]
        [\<lparr>matchId = 1, p1 = ''bob'', p2 = ''CHAMPION'', winner = Some ''bob''\<rparr>])"
    by (simp add: ex_state_def)
  from tournament_v2_converges(3)[OF n2 d bye emp id_permutes K1 K2 ex_v2_first_round s
      ex_v2_plays e]
  show ?thesis .
qed

section \<open>The claims\<close>

text \<open>
  \<^bold>\<open>C3.\<close> For every list of \<open>n \<ge> 2\<close> players, \<^verbatim>\<open>generatePairings\<close> returns, and it returns
  exactly \<open>2 ^ k / 2\<close> matches, where \<open>2 ^ k\<close> is the smallest power of two that is at
  least \<open>n\<close>. The slots of the round, taken together as a multiset of names, are the
  names of the input players, each player once, and \<open>2 ^ k - n\<close> further slots that hold
  the name of the \<^verbatim>\<open>BYE\<close> sentinel. The match ids are \<open>1, 2, \<dots>\<close> in the order of the
  round. This holds for the generator of every revision, for every outcome of the
  random sort that is a permutation of the players.
\<close>

theorem generatePairings_round:
  assumes n: "2 \<le> length players" and perm: "mset (shuffle players) = mset players"
  shows "\<exists>k. length players \<le> 2 ^ k \<and> (\<forall>j. length players \<le> 2 ^ j \<longrightarrow> k \<le> j)
     \<and> (\<forall>gp \<in> {generatePairings, generatePairings_v1, generatePairings_v2}.
          \<exists>r. gp shuffle players = Some r
            \<and> length r = 2 ^ k div 2
            \<and> mset (map p1 r) + mset (map p2 r)
                = mset (map username players) + replicate_mset (2 ^ k - length players) ''BYE''
            \<and> map matchId r = [1..<length r + 1])"
proof -
  let ?n = "length players"
  let ?sp = "shuffle players"
  have len: "length ?sp = ?n" using perm by (metis size_mset)
  obtain k where k: "nextPowerOfTwo ?n = Some (2 ^ k)" "?n \<le> 2 ^ k"
      "\<forall>j. ?n \<le> 2 ^ j \<longrightarrow> k \<le> j"
    using nextPowerOfTwo_returns[of ?n] by blast
  from n k(2) have "k \<noteq> 0" by (cases k) auto
  then obtain k' where k': "k = Suc k'" by (cases k) auto
  let ?h = "2 ^ k' :: nat"
  let ?padded = "?sp @ replicate (2 ^ k - ?n) BYE"
  have plen: "length ?padded = 2 * ?h" using k(2) len k' by simp
  have half: "(?n + (2 ^ k - ?n) + 1) div 2 = ?h" using k(2) k' by simp
  have hk: "(2::nat) ^ k div 2 = ?h" using k' by simp
  have names: "mset (map username ?padded)
      = mset (map username players) + replicate_mset (2 ^ k - ?n) ''BYE''"
  proof -
    have "mset (map username ?sp) = image_mset username (mset ?sp)" by simp
    also have "\<dots> = image_mset username (mset players)" by (simp only: perm)
    finally show ?thesis by simp
  qed
  have g0: "generatePairings shuffle players = Some (map (mk_match ?padded) [0..<?h])"
    using generatePairings_closed[of shuffle players "2 ^ k"] k(1) len half by simp
  have g1: "generatePairings_v1 shuffle players = Some (map (mk_match_v1 ?padded) [0..<?h])"
    using generatePairings_v1_closed[of shuffle players "2 ^ k"] k(1) len half n by simp
  have g2: "generatePairings_v2 shuffle players = Some (map (mk_match ?padded) [0..<?h])"
    using g0 n by (simp add: generatePairings_v2_def)
  let ?P = "\<lambda>r. length r = 2 ^ k div 2
            \<and> mset (map p1 r) + mset (map p2 r)
                = mset (map username players) + replicate_mset (2 ^ k - ?n) ''BYE''
            \<and> map matchId r = [1..<length r + 1]"
  have p0: "?P (map (mk_match ?padded) [0..<?h])"
    using round_props[of ?padded ?h "mk_match ?padded", OF plen mk_match_sel(1-3)]
    by (simp only: names hk)
  have p1: "?P (map (mk_match_v1 ?padded) [0..<?h])"
    using round_props[of ?padded ?h "mk_match_v1 ?padded", OF plen mk_match_v1_sel(1-3)]
    by (simp only: names hk)
  have "\<exists>r. gp shuffle players = Some r \<and> ?P r"
    if "gp \<in> {generatePairings, generatePairings_v1, generatePairings_v2}" for gp
  proof -
    from that consider "gp = generatePairings" | "gp = generatePairings_v1"
      | "gp = generatePairings_v2" by blast
    then show ?thesis
    proof cases
      case 1 with g0 p0 show ?thesis by blast
    next
      case 2 with g1 p1 show ?thesis by blast
    next
      case 3 with g2 p0 show ?thesis by blast
    qed
  qed
  with k(2,3) show ?thesis by blast
qed

theorem generatePairings_round_witness:
  "2 \<le> length [alice, bob, carol] \<and> mset (rev [alice, bob, carol]) = mset [alice, bob, carol]
   \<and> (\<exists>k. length [alice, bob, carol] \<le> 2 ^ k
        \<and> (\<forall>j. length [alice, bob, carol] \<le> 2 ^ j \<longrightarrow> k \<le> j)
        \<and> (\<forall>gp \<in> {generatePairings, generatePairings_v1, generatePairings_v2}.
             \<exists>r. gp rev [alice, bob, carol] = Some r
               \<and> length r = 2 ^ k div 2
               \<and> mset (map p1 r) + mset (map p2 r)
                   = mset (map username [alice, bob, carol])
                     + replicate_mset (2 ^ k - length [alice, bob, carol]) ''BYE''
               \<and> map matchId r = [1..<length r + 1]))"
proof -
  have h1: "2 \<le> length [alice, bob, carol]" by simp
  have h2: "mset (rev [alice, bob, carol]) = mset [alice, bob, carol]" by simp
  show ?thesis
    using h1 h2 generatePairings_round[of "[alice, bob, carol]" rev, OF h1 h2] by blast
qed

text \<open>
  \<^bold>\<open>C4\<close>, as stated, fails: on a single contestant \<^verbatim>\<open>generatePairings\<close> of
  \<^verbatim>\<open>src/index.js\<close> returns a round, of one match that pairs the contestant with
  themself (and on no contestant a round of one match between two \<^verbatim>\<open>BYE\<close>s); the
  guarded generators return a value too, the empty round, and no error.
\<close>

theorem generatePairings_single_counterexample:
  "length [alice] < 2
   \<and> generatePairings id [alice]
       = Some [\<lparr>matchId = 1, p1 = ''alice'', p2 = ''alice'', winner = None\<rparr>]
   \<and> generatePairings id []
       = Some [\<lparr>matchId = 1, p1 = ''BYE'', p2 = ''BYE'', winner = None\<rparr>]
   \<and> generatePairings_v1 id [alice] = Some []
   \<and> generatePairings_v2 id [alice] = Some []"
  by code_simp

text \<open>
  \<^bold>\<open>C4\<close>, amended. On fewer than two contestants the guarded generators (both revisions
  of \<^verbatim>\<open>part_001\<close>) return the empty round: no match, hence no match of a player
  against themself. The result is a value, not an error.
\<close>

theorem generatePairings_guarded_insufficient:
  "length players < 2 \<Longrightarrow>
     generatePairings_v1 shuffle players = Some [] \<and> generatePairings_v2 shuffle players = Some []"
  by (simp add: generatePairings_v1_def generatePairings_v2_def)

theorem generatePairings_guarded_insufficient_witness:
  "length [alice] < 2 \<and> generatePairings_v1 rev [alice] = Some []
     \<and> generatePairings_v2 rev [alice] = Some []"
  using generatePairings_guarded_insufficient[of "[alice]" rev] by simp

text \<open>
  \<^bold>\<open>C10.\<close> The \<^verbatim>\<open>updatewinner\<close> command, given to an active tournament, finds the player by
  user name \<open>w\<close>. When no entry of the bracket has its winner unset and holds the name, the
  handler answers "Could not find an active match" and leaves the state as it is.
  Otherwise let \<open>k\<close> be the least index of such an entry (when the match ids ascend along
  the bracket, as in every generated round, no such entry has a smaller match id). The
  handler's result is that of its round-completion block and of the update of the post,
  run on the state in which the entry at \<open>k\<close> has the winner \<open>w\<close> and every other entry,
  and every other field, is as before. In particular, while some match of the round is
  still open after that, the handler returns exactly this state, with the one reply that
  the player advances: one match is resolved, the first one, and no other. The same holds
  for the revisions of \<^verbatim>\<open>part_001\<close>, once their guards are passed (an administrator, two
  participants). The handlers read nothing of the user but the name: a user with the same
  name, whatever the id, gives the same result.
\<close>

theorem updatewinner_first_match_by_username:
  assumes "isChatInputCommand i" "commandName i = ''updatewinner''" "isActive st"
    and "username (winner_user i) = w"
  shows "(\<not> list_ex (isOpenMatchOf w) (bracket st) \<longrightarrow>
            interactionCreate shuffle fetched i st = Some ([NoActiveMatch w], st)
          \<and> (isAdmin i \<and> 2 \<le> length (participants st) \<and> bracket st \<noteq> [] \<longrightarrow>
                interactionCreate_v2 shuffle fetched i st = Some ([NoActiveMatch w], st)
              \<and> interactionCreate_v1 shuffle fetched i st = Some ([NoActiveMatch w], st)))
   \<and> (list_ex (isOpenMatchOf w) (bracket st) \<longrightarrow>
        (\<exists>k<length (bracket st).
           isOpenMatchOf w (bracket st ! k) \<and> (\<forall>j<k. \<not> isOpenMatchOf w (bracket st ! j))
         \<and> (sorted (map matchId (bracket st)) \<longrightarrow>
              (\<forall>m \<in> set (bracket st). isOpenMatchOf w m
                  \<longrightarrow> matchId (bracket st ! k) \<le> matchId m))
         \<and> (let b' = (bracket st)[k := (bracket st ! k)\<lparr>winner := Some w\<rparr>];
                 rep = (if p1 (bracket st ! k) = ''BYE'' \<or> p2 (bracket st ! k) = ''BYE''
                        then AdvancedBye w else Advanced w);
                 rep_v1 = AdvancedAgainst w (if p1 (bracket st ! k) = w then p2 (bracket st ! k)
                                              else p1 (bracket st ! k))
             in interactionCreate shuffle fetched i st
                  = (case advance shuffle (st\<lparr>bracket := b'\<rparr>) of
                       None \<Rightarrow> None
                     | Some (followUps, st2) \<Rightarrow>
                         map_option (Pair (rep # followUps))
                           (updateTournamentPost shuffle fetched st2))
              \<and> (\<not> allComplete b' \<longrightarrow>
                    interactionCreate shuffle fetched i st = Some ([rep], st\<lparr>bracket := b'\<rparr>))
              \<and> (isAdmin i \<and> 2 \<le> length (participants st) \<longrightarrow>
                    interactionCreate_v2 shuffle fetched i st
                      = (case advance_v2 shuffle (st\<lparr>bracket := b'\<rparr>) of
                           None \<Rightarrow> None
                         | Some (followUps, st2) \<Rightarrow>
                             map_option (Pair (rep # followUps))
                               (updateTournamentPost_v2 shuffle fetched st2))
                  \<and> interactionCreate_v1 shuffle fetched i st
                      = (case advance_v1 shuffle (st\<lparr>bracket := b'\<rparr>) of
                           None \<Rightarrow> None
                         | Some (followUps, st2) \<Rightarrow>
                             map_option (Pair (rep_v1 # followUps))
                               (updateTournamentPost_v1 shuffle fetched st2))
                  \<and> (\<not> allComplete b' \<longrightarrow>
                        interactionCreate_v2 shuffle fetched i st
                          = Some ([rep], st\<lparr>bracket := b'\<rparr>)
                      \<and> interactionCreate_v1 shuffle fetched i st
                          = Some ([rep_v1], st\<lparr>bracket := b'\<rparr>))))))
   \<and> (\<forall>u. username u = w \<longrightarrow>
         interactionCreate shuffle fetched (i\<lparr>winner_user := u\<rparr>) st
           = interactionCreate shuffle fetched i st
       \<and> interactionCreate_v1 shuffle fetched (i\<lparr>winner_user := u\<rparr>) st
           = interactionCreate_v1 shuffle fetched i st
       \<and> interactionCreate_v2 shuffle fetched (i\<lparr>winner_user := u\<rparr>) st
           = interactionCreate_v2 shuffle fetched i st)"
proof -
  let ?b = "bracket st"
  have none: "interactionCreate shuffle fetched i st = Some ([NoActiveMatch w], st)
          \<and> (isAdmin i \<and> 2 \<le> length (participants st) \<and> bracket st \<noteq> [] \<longrightarrow>
                interactionCreate_v2 shuffle fetched i st = Some ([NoActiveMatch w], st)
              \<and> interactionCreate_v1 shuffle fetched i st = Some ([NoActiveMatch w], st))"
    if "\<not> list_ex (isOpenMatchOf w) ?b"
    using assms findMatch_none[OF that]
    by (simp add: interactionCreate_def interactionCreate_v1_def interactionCreate_v2_def)
  have names: "interactionCreate shuffle fetched (i\<lparr>winner_user := u\<rparr>) st
             = interactionCreate shuffle fetched i st
         \<and> interactionCreate_v1 shuffle fetched (i\<lparr>winner_user := u\<rparr>) st
             = interactionCreate_v1 shuffle fetched i st
         \<and> interactionCreate_v2 shuffle fetched (i\<lparr>winner_user := u\<rparr>) st
             = interactionCreate_v2 shuffle fetched i st"
    if "username u = w" for u
    using that assms(4)
    by (simp add: interactionCreate_def interactionCreate_v1_def interactionCreate_v2_def)
  have some: "\<exists>k<length ?b.
           isOpenMatchOf w (?b ! k) \<and> (\<forall>j<k. \<not> isOpenMatchOf w (?b ! j))
         \<and> (sorted (map matchId ?b) \<longrightarrow>
              (\<forall>m \<in> set ?b. isOpenMatchOf w m \<longrightarrow> matchId (?b ! k) \<le> matchId m))
         \<and> (let b' = ?b[k := (?b ! k)\<lparr>winner := Some w\<rparr>];
                 rep = (if p1 (?b ! k) = ''BYE'' \<or> p2 (?b ! k) = ''BYE''
                        then AdvancedBye w else Advanced w);
                 rep_v1 = AdvancedAgainst w (if p1 (?b ! k) = w then p2 (?b ! k)
                                              else p1 (?b ! k))
             in interactionCreate shuffle fetched i st
                  = (case advance shuffle (st\<lparr>bracket := b'\<rparr>) of
                       None \<Rightarrow> None
                     | Some (followUps, st2) \<Rightarrow>
                         map_option (Pair (rep # followUps))
                           (updateTournamentPost shuffle fetched st2))
              \<and> (\<not> allComplete b' \<longrightarrow>
                    interactionCreate shuffle fetched i st = Some ([rep], st\<lparr>bracket := b'\<rparr>))
              \<and> (isAdmin i \<and> 2 \<le> length (participants st) \<longrightarrow>
                    interactionCreate_v2 shuffle fetched i st
                      = (case advance_v2 shuffle (st\<lparr>bracket := b'\<rparr>) of
                           None \<Rightarrow> None
                         | Some (followUps, st2) \<Rightarrow>
                             map_option (Pair (rep # followUps))
                               (updateTournamentPost_v2 shuffle fetched st2))
                  \<and> interactionCreate_v1 shuffle fetched i st
                      = (case advance_v1 shuffle (st\<lparr>bracket := b'\<rparr>) of
                           None \<Rightarrow> None
                         | Some (followUps, st2) \<Rightarrow>
                             map_option (Pair (rep_v1 # followUps))
                               (updateTournamentPost_v1 shuffle fetched st2))
                  \<and> (\<not> allComplete b' \<longrightarrow>
                        interactionCreate_v2 shuffle fetched i st
                          = Some ([rep], st\<lparr>bracket := b'\<rparr>)
                      \<and> interactionCreate_v1 shuffle fetched i st
                          = Some ([rep_v1], st\<lparr>bracket := b'\<rparr>))))"
    if ex: "list_ex (isOpenMatchOf w) ?b"
  proof -
    from first_open[OF ex] obtain k where k: "k < length ?b" "isOpenMatchOf w (?b ! k)"
      "\<forall>j<k. \<not> isOpenMatchOf w (?b ! j)" by blast
    let ?b' = "?b[k := (?b ! k)\<lparr>winner := Some w\<rparr>]"
    let ?rep = "if p1 (?b ! k) = ''BYE'' \<or> p2 (?b ! k) = ''BYE'' then AdvancedBye w else Advanced w"
    let ?rep1 = "AdvancedAgainst w (if p1 (?b ! k) = w then p2 (?b ! k) else p1 (?b ! k))"
    note fm = findMatch_at[OF k]
    from k(1) have ne: "?b \<noteq> []" "?b' \<noteq> []" by auto
    have least: "sorted (map matchId ?b) \<longrightarrow>
        (\<forall>m \<in> set ?b. isOpenMatchOf w m \<longrightarrow> matchId (?b ! k) \<le> matchId m)"
      using first_has_least_matchId[of ?b k w] k by blast
    have c0: "interactionCreate shuffle fetched i st
                = (case advance shuffle (st\<lparr>bracket := ?b'\<rparr>) of
                     None \<Rightarrow> None
                   | Some (followUps, st2) \<Rightarrow>
                       map_option (Pair (?rep # followUps)) (updateTournamentPost shuffle fetched st2))"
      using assms(1-4) by (simp add: interactionCreate_def fm(1))
    have a0: "advance shuffle (st\<lparr>bracket := ?b'\<rparr>) = Some ([], st\<lparr>bracket := ?b'\<rparr>)"
      if "\<not> allComplete ?b'"
      using that by (simp add: advance_def)
    have d0: "interactionCreate shuffle fetched i st = Some ([?rep], st\<lparr>bracket := ?b'\<rparr>)"
      if "\<not> allComplete ?b'"
      unfolding c0 a0[OF that] using ne(2) by (simp add: updateTournamentPost_nonempty)
    have c2: "interactionCreate_v2 shuffle fetched i st
                    = (case advance_v2 shuffle (st\<lparr>bracket := ?b'\<rparr>) of
                         None \<Rightarrow> None
                       | Some (followUps, st2) \<Rightarrow>
                           map_option (Pair (?rep # followUps))
                             (updateTournamentPost_v2 shuffle fetched st2))"
      if "isAdmin i \<and> 2 \<le> length (participants st)"
      using assms(1-4) that ne(1) by (simp add: interactionCreate_v2_def fm(1))
    have c1: "interactionCreate_v1 shuffle fetched i st
                    = (case advance_v1 shuffle (st\<lparr>bracket := ?b'\<rparr>) of
                         None \<Rightarrow> None
                       | Some (followUps, st2) \<Rightarrow>
                           map_option (Pair (?rep1 # followUps))
                             (updateTournamentPost_v1 shuffle fetched st2))"
      if "isAdmin i \<and> 2 \<le> length (participants st)"
      using assms(1-4) that ne(1) by (simp add: interactionCreate_v1_def fm(2))
    have a2: "advance_v2 shuffle (st\<lparr>bracket := ?b'\<rparr>) = Some ([], st\<lparr>bracket := ?b'\<rparr>)"
      "advance_v1 shuffle (st\<lparr>bracket := ?b'\<rparr>) = Some ([], st\<lparr>bracket := ?b'\<rparr>)"
      if "\<not> allComplete ?b'"
      using that by (simp_all add: advance_v2_def advance_v1_def)
    have d2: "interactionCreate_v2 shuffle fetched i st = Some ([?rep], st\<lparr>bracket := ?b'\<rparr>)
            \<and> interactionCreate_v1 shuffle fetched i st = Some ([?rep1], st\<lparr>bracket := ?b'\<rparr>)"
      if g: "isAdmin i \<and> 2 \<le> length (participants st)" and n: "\<not> allComplete ?b'"
      unfolding c2[OF g] c1[OF g] a2[OF n] using ne(2) by (simp add: updateTournamentPost_nonempty)
    show ?thesis
      unfolding Let_def using k least c0 d0 c2 c1 d2 by blast
  qed
  from none some names show ?thesis by blast
qed

text \<open>
  Two participants are called \<open>alice\<close>, one in match 1 and one in match 2, and both
  matches are open. Declaring \<open>alice\<close> resolves match 1 and leaves match 2 open, whichever
  of the two users the command names. Declaring Dave, who is in no match, resolves none.
\<close>

theorem updatewinner_first_match_by_username_witness:
  "isChatInputCommand (declares alice) \<and> commandName (declares alice) = ''updatewinner''
   \<and> isAdmin (declares alice)
   \<and> username (winner_user (declares alice)) = ''alice''
   \<and> username (winner_user (declares dave)) = ''dave''
   \<and> username \<lparr>id_p = ''9'', username = ''alice''\<rparr> = ''alice''
   \<and> alice \<noteq> \<lparr>id_p = ''9'', username = ''alice''\<rparr>
   \<and> isActive (ex_state True [alice, bob, carol, \<lparr>id_p = ''9'', username = ''alice''\<rparr>]
        [\<lparr>matchId = 1, p1 = ''alice'', p2 = ''bob'', winner = None\<rparr>,
         \<lparr>matchId = 2, p1 = ''carol'', p2 = ''alice'', winner = None\<rparr>])
   \<and> list_ex (isOpenMatchOf ''alice'')
        [\<lparr>matchId = 1, p1 = ''alice'', p2 = ''bob'', winner = None\<rparr>,
         \<lparr>matchId = 2, p1 = ''carol'', p2 = ''alice'', winner = None\<rparr>]
   \<and> \<not> list_ex (isOpenMatchOf ''dave'')
        [\<lparr>matchId = 1, p1 = ''alice'', p2 = ''bob'', winner = None\<rparr>,
         \<lparr>matchId = 2, p1 = ''carol'', p2 = ''alice'', winner = None\<rparr>]
   \<and> interactionCreate id True (declares alice)
        (ex_state True [alice, bob, carol, \<lparr>id_p = ''9'', username = ''alice''\<rparr>]
           [\<lparr>matchId = 1, p1 = ''alice'', p2 = ''bob'', winner = None\<rparr>,
            \<lparr>matchId = 2, p1 = ''carol'', p2 = ''alice'', winner = None\<rparr>])
       = Some ([Advanced ''alice''],
           ex_state True [alice, bob, carol, \<lparr>id_p = ''9'', username = ''alice''\<rparr>]
             [\<lparr>matchId = 1, p1 = ''alice'', p2 = ''bob'', winner = Some ''alice''\<rparr>,
              \<lparr>matchId = 2, p1 = ''carol'', p2 = ''alice'', winner = None\<rparr>])
   \<and> interactionCreate_v2 id True (declares alice)
        (ex_state True [alice, bob, carol, \<lparr>id_p = ''9'', username = ''alice''\<rparr>]
           [\<lparr>matchId = 1, p1 = ''alice'', p2 = ''bob'', winner = None\<rparr>,
            \<lparr>matchId = 2, p1 = ''carol'', p2 = ''alice'', winner = None\<rparr>])
       = Some ([Advanced ''alice''],
           ex_state True [alice, bob, carol, \<lparr>id_p = ''9'', username = ''alice''\<rparr>]
             [\<lparr>matchId = 1, p1 = ''alice'', p2 = ''bob'', winner = Some ''alice''\<rparr>,
              \<lparr>matchId = 2, p1 = ''carol'', p2 = ''alice'', winner = None\<rparr>])
   \<and> interactionCreate_v1 id True (declares alice)
        (ex_state True [alice, bob, carol, \<lparr>id_p = ''9'', username = ''alice''\<rparr>]
           [\<lparr>matchId = 1, p1 = ''alice'', p2 = ''bob'', winner = None\<rparr>,
            \<lparr>matchId = 2, p1 = ''carol'', p2 = ''alice'', winner = None\<rparr>])
       = Some ([AdvancedAgainst ''alice'' ''bob''],
           ex_state True [alice, bob, carol, \<lparr>id_p = ''9'', username = ''alice''\<rparr>]
             [\<lparr>matchId = 1, p1 = ''alice'', p2 = ''bob'', winner = Some ''alice''\<rparr>,
              \<lparr>matchId = 2, p1 = ''carol'', p2 = ''alice'', winner = None\<rparr>])
   \<and> interactionCreate id True (declares \<lparr>id_p = ''9'', username = ''alice''\<rparr>)
        (ex_state True [alice, bob, carol, \<lparr>id_p = ''9'', username = ''alice''\<rparr>]
           [\<lparr>matchId = 1, p1 = ''alice'', p2 = ''bob'', winner = None\<rparr>,
            \<lparr>matchId = 2, p1 = ''carol'', p2 = ''alice'', winner = None\<rparr>])
       = Some ([Advanced ''alice''],
           ex_state True [alice, bob, carol, \<lparr>id_p = ''9'', username = ''alice''\<rparr>]
             [\<lparr>matchId = 1, p1 = ''alice'', p2 = ''bob'', winner = Some ''alice''\<rparr>,
              \<lparr>matchId = 2, p1 = ''carol'', p2 = ''alice'', winner = None\<rparr>])
   \<and> interactionCreate id True (declares dave)
        (ex_state True [alice, bob, carol, \<lparr>id_p = ''9'', username = ''alice''\<rparr>]
           [\<lparr>matchId = 1, p1 = ''alice'', p2 = ''bob'', winner = None\<rparr>,
            \<lparr>matchId = 2, p1 = ''carol'', p2 = ''alice'', winner = None\<rparr>])
       = Some ([NoActiveMatch ''dave''],
           ex_state True [alice, bob, carol, \<lparr>id_p = ''9'', username = ''alice''\<rparr>]
             [\<lparr>matchId = 1, p1 = ''alice'', p2 = ''bob'', winner = None\<rparr>,
              \<lparr>matchId = 2, p1 = ''carol'', p2 = ''alice'', winner = None\<rparr>])"
proof -
  let ?a9 = "\<lparr>id_p = ''9'', username = ''alice''\<rparr>"
  let ?b = "[\<lparr>matchId = 1, p1 = ''alice'', p2 = ''bob'', winner = None\<rparr>,
             \<lparr>matchId = 2, p1 = ''carol'', p2 = ''alice'', winner = None\<rparr>]"
  let ?b' = "[\<lparr>matchId = 1, p1 = ''alice'', p2 = ''bob'', winner = Some ''alice''\<rparr>,
              \<lparr>matchId = 2, p1 = ''carol'', p2 = ''alice'', winner = None\<rparr>]"
  let ?st = "ex_state True [alice, bob, carol, ?a9] ?b"
  let ?st' = "ex_state True [alice, bob, carol, ?a9] ?b'"
  have h1: "isChatInputCommand (declares p)" "commandName (declares p) = ''updatewinner''"
    "isAdmin (declares p)" for p
    by (simp_all add: declares_def)
  have h3: "isActive ?st" by (simp add: ex_state_def)
  have h4: "username (winner_user (declares alice)) = ''alice''"
    "username (winner_user (declares dave)) = ''dave''"
    by (simp_all add: declares_def alice_def dave_def)
  have h5: "list_ex (isOpenMatchOf ''alice'') ?b" "\<not> list_ex (isOpenMatchOf ''dave'') ?b"
    by (simp_all add: isOpenMatchOf_def falsy_def)
  have h6: "username ?a9 = ''alice''" "alice \<noteq> ?a9" by (simp_all add: alice_def)
  have br: "bracket ?st = ?b" "2 \<le> length (participants ?st)" by (simp_all add: ex_state_def)
  have d: "(declares alice)\<lparr>winner_user := ?a9\<rparr> = declares ?a9" by (simp add: declares_def)
  have nc: "\<not> allComplete ?b'" by (simp add: allComplete_def)
  note t = updatewinner_first_match_by_username[OF h1(1,2) h3 h4(1), of id True]
  from t h5(1) br obtain k where k: "k < length ?b" "\<forall>j<k. \<not> isOpenMatchOf ''alice'' (?b ! j)"
    and r: "let b' = ?b[k := (?b ! k)\<lparr>winner := Some ''alice''\<rparr>];
                 rep = (if p1 (?b ! k) = ''BYE'' \<or> p2 (?b ! k) = ''BYE''
                        then AdvancedBye ''alice'' else Advanced ''alice'');
                 rep_v1 = AdvancedAgainst ''alice'' (if p1 (?b ! k) = ''alice'' then p2 (?b ! k)
                                              else p1 (?b ! k))
             in (\<not> allComplete b' \<longrightarrow>
                    interactionCreate id True (declares alice) ?st = Some ([rep], ?st\<lparr>bracket := b'\<rparr>))
              \<and> (isAdmin (declares alice) \<and> 2 \<le> length (participants ?st) \<longrightarrow>
                   (\<not> allComplete b' \<longrightarrow>
                        interactionCreate_v2 id True (declares alice) ?st
                          = Some ([rep], ?st\<lparr>bracket := b'\<rparr>)
                      \<and> interactionCreate_v1 id True (declares alice) ?st
                          = Some ([rep_v1], ?st\<lparr>bracket := b'\<rparr>)))"
    unfolding Let_def br(1) by blast
  have "isOpenMatchOf ''alice'' (?b ! 0)" by (simp add: isOpenMatchOf_def falsy_def)
  with k(2) have k0: "k = 0" by (cases k) auto
  from r have r0: "interactionCreate id True (declares alice) ?st = Some ([Advanced ''alice''], ?st')"
    "interactionCreate_v2 id True (declares alice) ?st = Some ([Advanced ''alice''], ?st')"
    "interactionCreate_v1 id True (declares alice) ?st = Some ([AdvancedAgainst ''alice'' ''bob''], ?st')"
    using nc h1(3)[of alice] br(2) unfolding k0 Let_def by (simp_all add: ex_state_def)
  from t h6(1) have "interactionCreate id True ((declares alice)\<lparr>winner_user := ?a9\<rparr>) ?st
      = interactionCreate id True (declares alice) ?st" by blast
  then have r9: "interactionCreate id True (declares ?a9) ?st = Some ([Advanced ''alice''], ?st')"
    unfolding d r0(1) .
  from updatewinner_first_match_by_username[OF h1(1,2) h3 h4(2), of id True] h5(2) br(1)
  have rd: "interactionCreate id True (declares dave) ?st = Some ([NoActiveMatch ''dave''], ?st)"
    by simp
  from h1[of alice] h4 h6 h3 h5 r0 r9 rd show ?thesis by blast
qed

text \<open>
  \<^bold>\<open>C5\<close>, as stated, fails: in a completed tournament the declaration of a player who is
  in no unresolved match is answered with "No active tournament to update.", not with
  "Could not find an active match".
\<close>

theorem updatewinner_completed_counterexample:
  "\<not> list_ex (isOpenMatchOf (username (winner_user (declares carol))))
        (bracket (ex_state False [alice, bob]
           [\<lparr>matchId = 1, p1 = ''alice'', p2 = ''bob'', winner = Some ''alice''\<rparr>]))
   \<and> interactionCreate id True (declares carol)
        (ex_state False [alice, bob]
           [\<lparr>matchId = 1, p1 = ''alice'', p2 = ''bob'', winner = Some ''alice''\<rparr>])
       = Some ([NoActiveTournament],
           ex_state False [alice, bob]
             [\<lparr>matchId = 1, p1 = ''alice'', p2 = ''bob'', winner = Some ''alice''\<rparr>])
   \<and> [NoActiveTournament] \<noteq> [NoActiveMatch (username (winner_user (declares carol)))]"
  by (simp add: interactionCreate_def ex_defs isOpenMatchOf_def falsy_def)

text \<open>
  \<^bold>\<open>C5\<close>, amended. When the \<^verbatim>\<open>updatewinner\<close> command names a player who is in neither slot
  of any entry of the bracket whose winner is unset (\<^verbatim>\<open>null\<close> or empty), the handler
  leaves the whole tournament state as it is, in every state. When the tournament is
  active (and, in the revisions of \<^verbatim>\<open>part_001\<close>, the caller is an administrator, two
  participants have joined and the bracket is not empty), its answer is the error
  "Could not find an active match" for that player.
\<close>

theorem updatewinner_no_open_match:
  assumes "\<not> list_ex (isOpenMatchOf (username (winner_user i))) (bracket st)"
    and "isChatInputCommand i" and "commandName i = ''updatewinner''"
  shows "(\<exists>rs. interactionCreate shuffle fetched i st = Some (rs, st))
       \<and> (\<exists>rs. interactionCreate_v1 shuffle fetched i st = Some (rs, st))
       \<and> (\<exists>rs. interactionCreate_v2 shuffle fetched i st = Some (rs, st))
       \<and> (isActive st \<longrightarrow>
             interactionCreate shuffle fetched i st
               = Some ([NoActiveMatch (username (winner_user i))], st))
       \<and> (isActive st \<and> isAdmin i \<and> 2 \<le> length (participants st) \<and> bracket st \<noteq> [] \<longrightarrow>
             interactionCreate_v1 shuffle fetched i st
               = Some ([NoActiveMatch (username (winner_user i))], st)
           \<and> interactionCreate_v2 shuffle fetched i st
               = Some ([NoActiveMatch (username (winner_user i))], st))"
  using assms
  by (auto simp: interactionCreate_def interactionCreate_v1_def interactionCreate_v2_def
                 findMatch_none Let_def)

theorem updatewinner_no_open_match_witness:
  "\<not> list_ex (isOpenMatchOf (username (winner_user (declares carol))))
        (bracket (ex_state True [alice, bob]
           [\<lparr>matchId = 1, p1 = ''alice'', p2 = ''bob'', winner = Some ''alice''\<rparr>]))
   \<and> isChatInputCommand (declares carol) \<and> commandName (declares carol) = ''updatewinner''
   \<and> isActive (ex_state True [alice, bob]
           [\<lparr>matchId = 1, p1 = ''alice'', p2 = ''bob'', winner = Some ''alice''\<rparr>])
   \<and> isAdmin (declares carol)
   \<and> interactionCreate id True (declares carol)
        (ex_state True [alice, bob]
           [\<lparr>matchId = 1, p1 = ''alice'', p2 = ''bob'', winner = Some ''alice''\<rparr>])
       = Some ([NoActiveMatch ''carol''],
           ex_state True [alice, bob]
             [\<lparr>matchId = 1, p1 = ''alice'', p2 = ''bob'', winner = Some ''alice''\<rparr>])
   \<and> interactionCreate_v1 id True (declares carol)
        (ex_state True [alice, bob]
           [\<lparr>matchId = 1, p1 = ''alice'', p2 = ''bob'', winner = Some ''alice''\<rparr>])
       = Some ([NoActiveMatch ''carol''],
           ex_state True [alice, bob]
             [\<lparr>matchId = 1, p1 = ''alice'', p2 = ''bob'', winner = Some ''alice''\<rparr>])
   \<and> interactionCreate_v2 id True (declares carol)
        (ex_state True [alice, bob]
           [\<lparr>matchId = 1, p1 = ''alice'', p2 = ''bob'', winner = Some ''alice''\<rparr>])
       = Some ([NoActiveMatch ''carol''],
           ex_state True [alice, bob]
             [\<lparr>matchId = 1, p1 = ''alice'', p2 = ''bob'', winner = Some ''alice''\<rparr>])"
proof -
  let ?st = "ex_state True [alice, bob]
           [\<lparr>matchId = 1, p1 = ''alice'', p2 = ''bob'', winner = Some ''alice''\<rparr>]"
  have h1: "\<not> list_ex (isOpenMatchOf (username (winner_user (declares carol)))) (bracket ?st)"
    by (simp add: ex_defs isOpenMatchOf_def falsy_def)
  have h2: "isChatInputCommand (declares carol)" by (simp add: declares_def)
  have h3: "commandName (declares carol) = ''updatewinner''" by (simp add: declares_def)
  have h4: "isActive ?st \<and> isAdmin (declares carol) \<and> 2 \<le> length (participants ?st)
      \<and> bracket ?st \<noteq> []"
    by (simp add: ex_defs)
  have n: "username (winner_user (declares carol)) = ''carol''" by (simp add: ex_defs)
  show ?thesis
    using h1 h2 h3 h4 updatewinner_no_open_match[OF h1 h2 h3, of id True]
    by (simp add: n)
qed

text \<open>
  \<^bold>\<open>C6.\<close> After a join of a user, a further join with the same user id (whatever name
  the user then has, whatever the random sort and the network do) returns the state it
  was given: the roster keeps its size and order, and so does everything else.
\<close>

theorem join_idempotent:
  "id_p u = id_p (user r) \<Longrightarrow>
     (\<exists>rs st1. messageReactionAdd shuffle fetched r st = Some (rs, st1)
        \<and> messageReactionAdd shuffle' fetched' (r\<lparr>user := u\<rparr>) st1 = Some ([], st1))
   \<and> (\<exists>rs st1. messageReactionAdd_v1 shuffle fetched r st = Some (rs, st1)
        \<and> messageReactionAdd_v1 shuffle' fetched' (r\<lparr>user := u\<rparr>) st1 = Some ([], st1))
   \<and> (\<exists>rs st1. messageReactionAdd_v2 shuffle fetched r st = Some (rs, st1)
        \<and> messageReactionAdd_v2 shuffle' fetched' (r\<lparr>user := u\<rparr>) st1 = Some ([], st1))"
  using join_twice[of u r shuffle fetched st shuffle' fetched']
    join_twice_v1[of u r shuffle fetched st shuffle' fetched']
    join_twice_v2[of u r shuffle fetched st shuffle' fetched']
  by blast

theorem join_idempotent_witness:
  "id_p \<lparr>id_p = ''1'', username = ''alice2''\<rparr> = id_p (user (joins alice))
   \<and> messageReactionAdd id True (joins alice) (ex_state True [] [])
       = Some ([LoggedJoined ''alice''], ex_state True [alice] [])
   \<and> messageReactionAdd rev False
        ((joins alice)\<lparr>user := \<lparr>id_p = ''1'', username = ''alice2''\<rparr>\<rparr>)
        (ex_state True [alice] [])
       = Some ([], ex_state True [alice] [])"
proof -
  have h: "id_p \<lparr>id_p = ''1'', username = ''alice2''\<rparr> = id_p (user (joins alice))"
    by (simp add: ex_defs)
  show ?thesis
    using h ex_join1
      join_idempotent[OF h, of id True "ex_state True [] []" rev False]
    by auto
qed

text \<open>
  \<^bold>\<open>C7.\<close> In every reachable state of every revision, each entry of the bracket whose
  winner is set has as its winner the name in its first or in its second slot. Every
  operation preserves this, from any state that has the property, reachable or not:
  the start of a tournament, a join (which may generate the first round), and a command
  (which sets a winner, may regenerate the round or complete the tournament, or ends
  the tournament).
\<close>

theorem reachable_winner_is_slot:
  "(reachable st \<longrightarrow> winner_ok st) \<and> (reachable_v1 st1 \<longrightarrow> winner_ok st1)
   \<and> (reachable_v2 st2 \<longrightarrow> winner_ok st2)
   \<and> (winner_ok s \<longrightarrow>
         winner_ok (startTournament req channel_ok sent s)
       \<and> winner_ok (startTournament_v1 req channel_ok sent s)
       \<and> (\<forall>rs s'. messageReactionAdd shuffle fetched r s = Some (rs, s')
                  \<or> messageReactionAdd_v1 shuffle fetched r s = Some (rs, s')
                  \<or> messageReactionAdd_v2 shuffle fetched r s = Some (rs, s')
                  \<or> interactionCreate shuffle fetched i s = Some (rs, s')
                  \<or> interactionCreate_v1 shuffle fetched i s = Some (rs, s')
                  \<or> interactionCreate_v2 shuffle fetched i s = Some (rs, s')
                \<longrightarrow> winner_ok s'))"
proof -
  have "winner_ok s'"
    if "winner_ok s"
      and "messageReactionAdd shuffle fetched r s = Some (rs, s')
         \<or> messageReactionAdd_v1 shuffle fetched r s = Some (rs, s')
         \<or> messageReactionAdd_v2 shuffle fetched r s = Some (rs, s')
         \<or> interactionCreate shuffle fetched i s = Some (rs, s')
         \<or> interactionCreate_v1 shuffle fetched i s = Some (rs, s')
         \<or> interactionCreate_v2 shuffle fetched i s = Some (rs, s')"
    for rs s'
    using that(2)
  proof (elim disjE)
    assume "messageReactionAdd shuffle fetched r s = Some (rs, s')"
    then show ?thesis by (rule messageReactionAdd_winner_ok[OF that(1)])
  next
    assume "messageReactionAdd_v1 shuffle fetched r s = Some (rs, s')"
    then show ?thesis by (rule messageReactionAdd_v1_winner_ok[OF that(1)])
  next
    assume "messageReactionAdd_v2 shuffle fetched r s = Some (rs, s')"
    then show ?thesis by (rule messageReactionAdd_v2_winner_ok[OF that(1)])
  next
    assume "interactionCreate shuffle fetched i s = Some (rs, s')"
    then show ?thesis by (rule interactionCreate_winner_ok[OF that(1)])
  next
    assume "interactionCreate_v1 shuffle fetched i s = Some (rs, s')"
    then show ?thesis by (rule interactionCreate_v1_winner_ok[OF that(1)])
  next
    assume "interactionCreate_v2 shuffle fetched i s = Some (rs, s')"
    then show ?thesis by (rule interactionCreate_v2_winner_ok[OF that(1)])
  qed
  moreover have "reachable st \<longrightarrow> winner_ok st" "reachable_v1 st1 \<longrightarrow> winner_ok st1"
    "reachable_v2 st2 \<longrightarrow> winner_ok st2"
    using reachable_winner_ok reachable_v1_winner_ok reachable_v2_winner_ok by blast+
  moreover have "winner_ok s \<longrightarrow> winner_ok (startTournament req channel_ok sent s)
       \<and> winner_ok (startTournament_v1 req channel_ok sent s)"
    using startTournament_winner_ok by blast
  ultimately show ?thesis by blast
qed

theorem reachable_winner_is_slot_witness:
  "reachable (ex_state True [alice, bob]
       [\<lparr>matchId = 1, p1 = ''alice'', p2 = ''bob'', winner = Some ''alice''\<rparr>])
   \<and> winner_ok (ex_state True [alice, bob]
       [\<lparr>matchId = 1, p1 = ''alice'', p2 = ''bob'', winner = Some ''alice''\<rparr>])
   \<and> reachable_v1 (ex_state False [alice, bob]
       [\<lparr>matchId = 1, p1 = ''alice'', p2 = ''CHAMPION'', winner = Some ''alice''\<rparr>])
   \<and> reachable_v2 (ex_state False [alice, bob]
       [\<lparr>matchId = 1, p1 = ''alice'', p2 = ''CHAMPION'', winner = Some ''alice''\<rparr>])
   \<and> winner_ok (ex_state False [alice, bob]
       [\<lparr>matchId = 1, p1 = ''alice'', p2 = ''CHAMPION'', winner = Some ''alice''\<rparr>])
   \<and> winner_ok (ex_state True [alice, bob]
       [\<lparr>matchId = 1, p1 = ''alice'', p2 = ''bob'', winner = None\<rparr>])
   \<and> interactionCreate id True (declares alice)
       (ex_state True [alice, bob] [\<lparr>matchId = 1, p1 = ''alice'', p2 = ''bob'', winner = None\<rparr>])
     = Some ([Advanced ''alice''],
         ex_state True [alice, bob]
           [\<lparr>matchId = 1, p1 = ''alice'', p2 = ''bob'', winner = Some ''alice''\<rparr>])"
proof -
  have w: "winner_ok (ex_state True [alice, bob]
       [\<lparr>matchId = 1, p1 = ''alice'', p2 = ''bob'', winner = None\<rparr>])"
    by (simp add: winner_ok_def winnerIsSlot_def ex_state_def)
  from reachable_winner_is_slot[of
      "ex_state True [alice, bob]
         [\<lparr>matchId = 1, p1 = ''alice'', p2 = ''bob'', winner = Some ''alice''\<rparr>]"
      "ex_state False [alice, bob]
         [\<lparr>matchId = 1, p1 = ''alice'', p2 = ''CHAMPION'', winner = Some ''alice''\<rparr>]"
      "ex_state False [alice, bob]
         [\<lparr>matchId = 1, p1 = ''alice'', p2 = ''CHAMPION'', winner = Some ''alice''\<rparr>]"]
    ex_reachable ex_reachable_v1 ex_reachable_v2
  have "winner_ok (ex_state True [alice, bob]
         [\<lparr>matchId = 1, p1 = ''alice'', p2 = ''bob'', winner = Some ''alice''\<rparr>])"
    and "winner_ok (ex_state False [alice, bob]
         [\<lparr>matchId = 1, p1 = ''alice'', p2 = ''CHAMPION'', winner = Some ''alice''\<rparr>])"
    by blast+
  with w ex_reachable ex_reachable_v1 ex_reachable_v2 ex_declare show ?thesis by blast
qed

text \<open>
  \<^bold>\<open>C8\<close>, as stated, fails: a join that arrives after the tournament has completed is
  dropped without any answer; no error is reported to anyone.
\<close>

theorem join_completed_counterexample:
  "\<not> isActive (ex_state False [alice, bob]
       [\<lparr>matchId = 1, p1 = ''alice'', p2 = ''CHAMPION'', winner = Some ''alice''\<rparr>])
   \<and> messageReactionAdd id True (joins carol)
        (ex_state False [alice, bob]
           [\<lparr>matchId = 1, p1 = ''alice'', p2 = ''CHAMPION'', winner = Some ''alice''\<rparr>])
       = Some ([], ex_state False [alice, bob]
           [\<lparr>matchId = 1, p1 = ''alice'', p2 = ''CHAMPION'', winner = Some ''alice''\<rparr>])
   \<and> NoActiveTournament \<notin> set ([] :: reply list)"
  by (simp add: messageReactionAdd_def ex_defs)

text \<open>
  \<^bold>\<open>C8\<close>, amended. A join delivered while the tournament is not active (completed, ended
  or never started) is ignored silently: the handler returns at its guard, the roster
  and the rest of the state are unchanged, and nothing is sent or logged.
\<close>

theorem join_inactive_silent:
  assumes "\<not> isActive st"
  shows "messageReactionAdd shuffle fetched r st = Some ([], st)
       \<and> messageReactionAdd_v1 shuffle fetched r st = Some ([], st)
       \<and> messageReactionAdd_v2 shuffle fetched r st = Some ([], st)"
  using assms
  by (simp add: messageReactionAdd_def messageReactionAdd_v1_def messageReactionAdd_v2_def)

theorem join_inactive_silent_witness:
  "\<not> isActive (ex_state False [alice, bob] [])
   \<and> messageReactionAdd id True (joins carol) (ex_state False [alice, bob] [])
       = Some ([], ex_state False [alice, bob] [])
   \<and> messageReactionAdd_v1 id True (joins carol) (ex_state False [alice, bob] [])
       = Some ([], ex_state False [alice, bob] [])
   \<and> messageReactionAdd_v2 id True (joins carol) (ex_state False [alice, bob] [])
       = Some ([], ex_state False [alice, bob] [])"
proof -
  have h: "\<not> isActive (ex_state False [alice, bob] [])" by (simp add: ex_state_def)
  show ?thesis
    using h join_inactive_silent[OF h, of id True "joins carol"] by simp
qed




text \<open>
  \<^bold>\<open>C1\<close>: what \<^verbatim>\<open>src/index.js\<close> does where the claim fails. In the final of two players,
  once the only match has its winner, exactly one winner remains, yet the tournament
  stays active and no champion is announced; the revisions of \<^verbatim>\<open>part_001\<close> end the
  tournament there (the second one below, the first one in \<open>ex_declare_v1\<close>). In a round of two matches, once both have a winner, two winners
  remain, yet \<^verbatim>\<open>src/index.js\<close> announces the first of them as the winner of the tournament
  and ends it, over a new match that nobody has played; the revisions of \<^verbatim>\<open>part_001\<close>
  start the next round (the first one in \<open>ex_round_v1\<close>). The states of both examples are reachable (\<open>ex_reachable\<close>,
  \<open>ex_four_reachable\<close>).
\<close>

theorem advancement_index_divergence:
  "interactionCreate id True (declares alice)
       (ex_state True [alice, bob] [\<lparr>matchId = 1, p1 = ''alice'', p2 = ''bob'', winner = None\<rparr>])
     = Some ([Advanced ''alice''],
         ex_state True [alice, bob]
           [\<lparr>matchId = 1, p1 = ''alice'', p2 = ''bob'', winner = Some ''alice''\<rparr>])
   \<and> interactionCreate_v2 id True (declares alice)
       (ex_state True [alice, bob] [\<lparr>matchId = 1, p1 = ''alice'', p2 = ''bob'', winner = None\<rparr>])
     = Some ([Advanced ''alice'', TournamentWon ''alice''],
         ex_state False [alice, bob]
           [\<lparr>matchId = 1, p1 = ''alice'', p2 = ''CHAMPION'', winner = Some ''alice''\<rparr>])
   \<and> interactionCreate id True (declares bob)
       (ex_state True [alice, bob, carol, dave]
          [\<lparr>matchId = 1, p1 = ''alice'', p2 = ''dave'', winner = Some ''alice''\<rparr>,
           \<lparr>matchId = 2, p1 = ''bob'', p2 = ''carol'', winner = None\<rparr>])
     = Some ([Advanced ''bob'', TournamentWon ''alice''],
         ex_state False [alice, bob, carol, dave]
           [\<lparr>matchId = 1, p1 = ''alice'', p2 = ''bob'', winner = None\<rparr>])
   \<and> interactionCreate_v2 id True (declares bob)
       (ex_state True [alice, bob, carol, dave]
          [\<lparr>matchId = 1, p1 = ''alice'', p2 = ''dave'', winner = Some ''alice''\<rparr>,
           \<lparr>matchId = 2, p1 = ''bob'', p2 = ''carol'', winner = None\<rparr>])
     = Some ([Advanced ''bob'', RoundComplete 1],
         ex_state True [alice, bob, carol, dave]
           [\<lparr>matchId = 1, p1 = ''alice'', p2 = ''bob'', winner = None\<rparr>])"
  by code_simp

text \<open>
  \<^bold>\<open>C2\<close>: what \<^verbatim>\<open>src/index.js\<close> does where the claim fails. A roster of two: the
  tournament has started, both players have joined and the bracket of one match has
  been generated (\<open>ex_reachable\<close> runs these steps from the initial state). The winner
  of the match is declared, and the claim asks for a champion after this one round.
  The tournament is still active, no winner of it has been announced, and declaring
  either player again is answered with "Could not find an active match": by
  \<open>final_never_completes\<close> no later event ends it. The second revision of \<^verbatim>\<open>part_001\<close>
  does what the claim says when the first round is generated from the whole roster
  (\<open>tournament_v2_converges\<close>).
\<close>

theorem two_player_tournament_never_ends:
  "interactionCreate id True (declares alice)
       (ex_state True [alice, bob] [\<lparr>matchId = 1, p1 = ''alice'', p2 = ''bob'', winner = None\<rparr>])
     = Some ([Advanced ''alice''],
         ex_state True [alice, bob]
           [\<lparr>matchId = 1, p1 = ''alice'', p2 = ''bob'', winner = Some ''alice''\<rparr>])
   \<and> isActive (ex_state True [alice, bob]
           [\<lparr>matchId = 1, p1 = ''alice'', p2 = ''bob'', winner = Some ''alice''\<rparr>])
   \<and> interactionCreate id True (declares alice)
       (ex_state True [alice, bob]
          [\<lparr>matchId = 1, p1 = ''alice'', p2 = ''bob'', winner = Some ''alice''\<rparr>])
     = Some ([NoActiveMatch ''alice''],
         ex_state True [alice, bob]
           [\<lparr>matchId = 1, p1 = ''alice'', p2 = ''bob'', winner = Some ''alice''\<rparr>])
   \<and> interactionCreate id True (declares bob)
       (ex_state True [alice, bob]
          [\<lparr>matchId = 1, p1 = ''alice'', p2 = ''bob'', winner = Some ''alice''\<rparr>])
     = Some ([NoActiveMatch ''bob''],
         ex_state True [alice, bob]
           [\<lparr>matchId = 1, p1 = ''alice'', p2 = ''bob'', winner = Some ''alice''\<rparr>])"
  by code_simp

end
